theory Spec2Isabelle
  imports Main "HOL-Library.AList"
begin

section \<open>Python values, exceptions and effects\<close>

text \<open>
  The values that travel through the client: parsed command-line attributes, request
  bodies and the records the service returns. A Python \<open>dict\<close> keeps its keys in
  insertion order, so it is an association list; \<open>AList.update\<close> is the assignment
  \<open>d[k] = v\<close> (replace in place, or append a new key at the end).
\<close>

datatype pyval =
    PNone
  | PBool bool
  | PInt int
  | PStr string
  | PList "pyval list"
  | PDict "(string \<times> pyval) list"

type_synonym pydict = "(string \<times> pyval) list"

text \<open>
  Exceptions are values. \<open>KeyboardInterrupt\<close> and \<open>SystemExit\<close> derive from
  \<open>BaseException\<close> only; every other constructor is a subclass of \<open>Exception\<close>.
  \<open>CommandError\<close> is \<open>exceptions.CommandError\<close> (a usage error raised by a command),
  \<open>NeutronClientException\<close> is \<open>exc.NeutronClientException\<close> (an error reported by
  the remote API), \<open>NotFound\<close> and \<open>AmbiguousReference\<close> are the two failures of name
  resolution.
\<close>

datatype py_exc =
    KeyboardInterrupt
  | SystemExit int
  | CommandError string
  | NeutronClientException string
  | NotFound string string
  | AmbiguousReference string string "string list"
  | KeyError string
  | TypeError
  | ArgumentTypeError string
  | AttributeError string
  | ValueError string
  | OtherException string

fun is_Exception :: "py_exc \<Rightarrow> bool" where
  "is_Exception KeyboardInterrupt = False"
| "is_Exception (SystemExit c) = False"
| "is_Exception e = True"

text \<open>\<open>obj[key]\<close> with a string key: only a dict can be indexed that way.\<close>

fun getitem :: "pyval \<Rightarrow> string \<Rightarrow> py_exc + pyval" where
  "getitem (PDict kvs) k = (case map_of kvs k of None \<Rightarrow> Inl (KeyError k) | Some v \<Rightarrow> Inr v)"
| "getitem v k = Inl TypeError"

text \<open>Truthiness, as \<open>if x:\<close> tests it.\<close>

fun truthy :: "pyval \<Rightarrow> bool" where
  "truthy PNone = False"
| "truthy (PBool b) = b"
| "truthy (PInt i) = (i \<noteq> 0)"
| "truthy (PStr s) = (s \<noteq> [])"
| "truthy (PList xs) = (xs \<noteq> [])"
| "truthy (PDict kvs) = (kvs \<noteq> [])"

text \<open>
  The \<open>%s\<close> conversion is \<open>str(v)\<close>: a string is inserted as it is, and for every
  other value of this type \<open>str\<close> coincides with \<open>repr\<close>, a builtin of the interpreter
  that is passed in.
\<close>

definition py_str :: "(pyval \<Rightarrow> string) \<Rightarrow> pyval \<Rightarrow> string" where
  "py_str repr v = (case v of PStr s \<Rightarrow> s | _ \<Rightarrow> repr v)"

text \<open>
  Effects are recorded in the order in which they happen. A computation is the list of
  events it caused together with its outcome: \<open>Inl\<close> an exception that escaped,
  \<open>Inr\<close> the value returned.
\<close>

datatype event =
    FindResourceId string string
  | ListByName string string
  | AddInterfaceRouterCall string pydict
  | RemoveInterfaceRouterCall string pydict
  | RemoveGatewayRouterCall string
  | Stdout string
  | BashCompletion
  | ParseGlobalOptions "string list"
  | Authenticate
  | Interact
  | PrepareToRunCommand string
  | ParseKnownArgs "string list"
  | RunCommand pydict "string list"

type_synonym 'a io = "event list \<times> (py_exc + 'a)"

definition io_return :: "'a \<Rightarrow> 'a io" where
  "io_return v = ([], Inr v)"

definition io_raise :: "py_exc \<Rightarrow> 'a io" where
  "io_raise e = ([], Inl e)"

definition io_lift :: "py_exc + 'a \<Rightarrow> 'a io" where
  "io_lift r = ([], r)"

definition io_call :: "event \<Rightarrow> py_exc + 'a \<Rightarrow> 'a io" where
  "io_call ev r = ([ev], r)"

definition io_bind :: "'a io \<Rightarrow> ('a \<Rightarrow> 'b io) \<Rightarrow> 'b io" where
  "io_bind m f =
     (case m of
        (t, Inl e) \<Rightarrow> (t, Inl e)
      | (t, Inr v) \<Rightarrow> (case f v of (t', r) \<Rightarrow> (t @ t', r)))"

section \<open>router.py\<close>

subsection \<open>The column formatter\<close>

text \<open>
  \<^verbatim>\<open>
  def _format_external_gateway_info(router):
      try:
          return jsonutils.dumps(router['external_gateway_info'])
      except (TypeError, KeyError):
          return ''
  \<close>
  \<open>jsonutils.dumps\<close> belongs to the serialization library and is a parameter. Both the
  subscript and the call to \<open>dumps\<close> are inside the \<open>try\<close>.
\<close>

definition format_external_gateway_info ::
  "(pyval \<Rightarrow> py_exc + string) \<Rightarrow> pyval \<Rightarrow> py_exc + string" where
  "format_external_gateway_info dumps router =
     (case (case getitem router ''external_gateway_info'' of
              Inl e \<Rightarrow> Inl e
            | Inr v \<Rightarrow> dumps v) of
        Inl TypeError \<Rightarrow> Inr ''''
      | Inl (KeyError k) \<Rightarrow> Inr ''''
      | Inl e \<Rightarrow> Inl e
      | Inr s \<Rightarrow> Inr s)"

subsection \<open>The neutron client as the commands see it\<close>

text \<open>
  The commands reach the service through the client object. Its answers are the fields
  of this record; each call made is recorded as an event. \<open>resolve\<close> is what
  \<open>neutronV20.find_resourceid_by_name_or_id(client, resource, token)\<close> yields.
\<close>

record neutron_client =
  resolve :: "string \<Rightarrow> string \<Rightarrow> py_exc + string"
  add_interface_router :: "string \<Rightarrow> pydict \<Rightarrow> py_exc + pyval"
  remove_interface_router :: "string \<Rightarrow> pydict \<Rightarrow> py_exc + pyval"
  remove_gateway_router :: "string \<Rightarrow> py_exc + pyval"

definition find_resourceid_by_name_or_id ::
  "neutron_client \<Rightarrow> string \<Rightarrow> string \<Rightarrow> string io" where
  "find_resourceid_by_name_or_id client resource token =
     io_call (FindResourceId resource token) (resolve client resource token)"

definition print_stdout :: "string \<Rightarrow> unit io" where
  "print_stdout s = io_call (Stdout s) (Inr ())"

subsection \<open>router-interface-add and router-interface-delete\<close>

record router_args =
  router :: string

record interface_args = router_args +
  interface :: string

text \<open>\<open>s.split('=', 1)\<close> for a string that contains \<open>=\<close>.\<close>

definition split_eq :: "string \<Rightarrow> string \<times> string" where
  "split_eq s = (takeWhile (\<lambda>c. c \<noteq> CHR ''='') s, tl (dropWhile (\<lambda>c. c \<noteq> CHR ''='') s))"

text \<open>
  \<open>RouterInterfaceCommand.run\<close>; \<open>call_api\<close> and \<open>success_message\<close> are the two
  methods the subclasses supply. When the prefix before \<open>=\<close> is neither \<open>subnet\<close>
  nor \<open>port\<close> the source builds a \<open>CommandError\<close> object and drops it (there is no
  \<open>raise\<close>), so both branches of that test continue in the same way.
\<close>

definition RouterInterfaceCommand_run ::
  "(neutron_client \<Rightarrow> string \<Rightarrow> pydict \<Rightarrow> pyval io) \<Rightarrow>
   (string \<Rightarrow> pyval \<Rightarrow> py_exc + string) \<Rightarrow>
   neutron_client \<Rightarrow> 'a interface_args_scheme \<Rightarrow> unit io" where
  "RouterInterfaceCommand_run call_api success_message neutron_client parsed_args =
     (let (resource, val) =
            (if CHR ''='' \<in> set (interface parsed_args)
             then (let (resource, val) = split_eq (interface parsed_args)
                   in (if resource \<notin> set [''subnet'', ''port'']
                       then (resource, val)
                       else (resource, val)))
             else (''subnet'', interface parsed_args))
      in io_bind (find_resourceid_by_name_or_id neutron_client ''router'' (router parsed_args))
           (\<lambda>router_id.
         io_bind (find_resourceid_by_name_or_id neutron_client resource val)
           (\<lambda>interface_id.
         io_bind (call_api neutron_client router_id [(resource @ ''_id'', PStr interface_id)])
           (\<lambda>portinfo.
         io_bind (io_lift (success_message (router parsed_args) portinfo))
           print_stdout))))"

definition AddInterfaceRouter_call_api ::
  "neutron_client \<Rightarrow> string \<Rightarrow> pydict \<Rightarrow> pyval io" where
  "AddInterfaceRouter_call_api neutron_client router_id body =
     io_call (AddInterfaceRouterCall router_id body)
       (add_interface_router neutron_client router_id body)"

definition AddInterfaceRouter_success_message ::
  "(pyval \<Rightarrow> string) \<Rightarrow> string \<Rightarrow> pyval \<Rightarrow> py_exc + string" where
  "AddInterfaceRouter_success_message repr router_id portinfo =
     (case getitem portinfo ''port_id'' of
        Inl e \<Rightarrow> Inl e
      | Inr port \<Rightarrow>
          Inr (''Added interface '' @ py_str repr port @ '' to router '' @ router_id @ ''.''))"

definition AddInterfaceRouter_run ::
  "(pyval \<Rightarrow> string) \<Rightarrow> neutron_client \<Rightarrow> 'a interface_args_scheme \<Rightarrow> unit io" where
  "AddInterfaceRouter_run repr =
     RouterInterfaceCommand_run AddInterfaceRouter_call_api
       (AddInterfaceRouter_success_message repr)"

definition RemoveInterfaceRouter_call_api ::
  "neutron_client \<Rightarrow> string \<Rightarrow> pydict \<Rightarrow> pyval io" where
  "RemoveInterfaceRouter_call_api neutron_client router_id body =
     io_call (RemoveInterfaceRouterCall router_id body)
       (remove_interface_router neutron_client router_id body)"

definition RemoveInterfaceRouter_success_message :: "string \<Rightarrow> pyval \<Rightarrow> py_exc + string" where
  "RemoveInterfaceRouter_success_message router_id portinfo =
     Inr (''Removed interface from router '' @ router_id @ ''.'')"

definition RemoveInterfaceRouter_run ::
  "neutron_client \<Rightarrow> 'a interface_args_scheme \<Rightarrow> unit io" where
  "RemoveInterfaceRouter_run =
     RouterInterfaceCommand_run RemoveInterfaceRouter_call_api
       RemoveInterfaceRouter_success_message"

subsection \<open>router-gateway-clear\<close>

definition RemoveGatewayRouter_run ::
  "neutron_client \<Rightarrow> 'a router_args_scheme \<Rightarrow> unit io" where
  "RemoveGatewayRouter_run neutron_client parsed_args =
     io_bind (find_resourceid_by_name_or_id neutron_client ''router'' (router parsed_args))
       (\<lambda>router_id.
     io_bind (io_call (RemoveGatewayRouterCall router_id)
                (remove_gateway_router neutron_client router_id))
       (\<lambda>_. print_stdout (''Removed gateway from router '' @ router parsed_args)))"


section \<open>Command-line parsing\<close>

subsection \<open>The argument parser of the standard library\<close>

text \<open>
  The commands declare their options with \<open>parser.add_argument\<close> and the shell calls
  \<open>parse_known_args\<close>. The parser itself is \<open>argparse\<close>; what follows is its
  behaviour on the kind of declarations the router commands make: long options with the
  actions \<open>store\<close>, \<open>store_true\<close>, \<open>store_false\<close> and \<open>append\<close>, positionals
  that take one token each, a \<open>type=\<close> conversion, defaults (\<open>None\<close> stands for
  \<open>argparse.SUPPRESS\<close>: the attribute does not exist until the option is given) and
  mutually exclusive groups. \<open>parser.error\<close> ends in \<open>sys.exit(2)\<close>.
\<close>

datatype action = Store | StoreTrue | StoreFalse | Append

record argument =
  option_strings :: "string list"
  dest :: string
  action :: action
  default_val :: "pyval option"
  arg_type :: "string \<Rightarrow> py_exc + pyval"
  excl_group :: "nat option"

definition arg_name :: "argument \<Rightarrow> string" where
  "arg_name a = (case option_strings a of [] \<Rightarrow> dest a | s # _ \<Rightarrow> s)"

definition hasattr :: "pydict \<Rightarrow> string \<Rightarrow> bool" where
  "hasattr ns a = (map_of ns a \<noteq> None)"

definition getattr :: "pydict \<Rightarrow> string \<Rightarrow> py_exc + pyval" where
  "getattr ns a = (case map_of ns a of None \<Rightarrow> Inl (AttributeError a) | Some v \<Rightarrow> Inr v)"

text \<open>The defaults are written first, in declaration order, for attributes not yet set.\<close>

definition set_default :: "pydict \<Rightarrow> argument \<Rightarrow> pydict" where
  "set_default ns a =
     (case default_val a of
        None \<Rightarrow> ns
      | Some v \<Rightarrow> if hasattr ns (dest a) then ns else AList.update (dest a) v ns)"

definition init_namespace :: "argument list \<Rightarrow> pydict" where
  "init_namespace args = foldl set_default [] args"

text \<open>
  How one token is read (\<open>_parse_optional\<close>): a positional-like token, a declared option
  (spelled in full, as \<open>--opt=value\<close>, or as an unambiguous prefix of a long option), an
  option-like token that matches nothing, or an ambiguous prefix.
\<close>

datatype parsed_optional =
    NotOptional
  | Known argument "string option"
  | Unknown
  | Ambiguous

fun is_NotOptional :: "parsed_optional \<Rightarrow> bool" where
  "is_NotOptional NotOptional = True"
| "is_NotOptional p = False"

definition is_digit :: "char \<Rightarrow> bool" where
  "is_digit c = (c \<in> set ''0123456789'')"

text \<open>The pattern \<^verbatim>\<open>^-\d+$|^-\d*\.\d+$\<close>.\<close>

definition negative_number :: "string \<Rightarrow> bool" where
  "negative_number s =
     (case s of
        [] \<Rightarrow> False
      | c # r \<Rightarrow> c = CHR ''-'' \<and>
          ((r \<noteq> [] \<and> list_all is_digit r) \<or>
           (let i = takeWhile is_digit r; f = dropWhile is_digit r
            in (case f of
                  [] \<Rightarrow> False
                | d # ds \<Rightarrow> d = CHR ''.'' \<and> ds \<noteq> [] \<and> list_all is_digit ds))))"

definition startswith :: "string \<Rightarrow> string \<Rightarrow> bool" where
  "startswith s p = (take (length p) s = p)"

definition option_prefix :: "string \<Rightarrow> string" where
  "option_prefix s = takeWhile (\<lambda>c. c \<noteq> CHR ''='') s"

definition explicit_arg :: "string \<Rightarrow> string option" where
  "explicit_arg s = (if CHR ''='' \<in> set s then Some (tl (dropWhile (\<lambda>c. c \<noteq> CHR ''='') s)) else None)"

definition get_option_tuples :: "argument list \<Rightarrow> string \<Rightarrow> (argument \<times> string option) list" where
  "get_option_tuples args s =
     (if startswith s ''--''
      then concat (map (\<lambda>a. map (\<lambda>os. (a, explicit_arg s))
                                (filter (\<lambda>os. startswith os (option_prefix s)) (option_strings a)))
                       args)
      else [])"

definition parse_optional :: "argument list \<Rightarrow> string \<Rightarrow> parsed_optional" where
  "parse_optional args s =
     (if s = [] then NotOptional
      else if hd s \<noteq> CHR ''-'' then NotOptional
      else case find (\<lambda>a. s \<in> set (option_strings a)) args of
        Some a \<Rightarrow> Known a None
      | None \<Rightarrow>
          if length s = 1 then NotOptional
          else case (if CHR ''='' \<in> set s
                     then find (\<lambda>a. option_prefix s \<in> set (option_strings a)) args
                     else None) of
            Some a \<Rightarrow> Known a (explicit_arg s)
          | None \<Rightarrow>
              (case get_option_tuples args s of
                 [] \<Rightarrow> if negative_number s then NotOptional
                       else if CHR '' '' \<in> set s then NotOptional
                       else Unknown
               | [(a, e)] \<Rightarrow> Known a e
               | _ \<Rightarrow> Ambiguous))"

text \<open>
  The type conversion of one value (\<open>_get_value\<close>): an \<open>ArgumentTypeError\<close>, a
  \<open>TypeError\<close> or a \<open>ValueError\<close> of the conversion becomes a parser error, anything
  else escapes as it is.
\<close>

definition get_value :: "argument \<Rightarrow> string \<Rightarrow> py_exc + pyval" where
  "get_value a s =
     (case arg_type a s of
        Inl (ArgumentTypeError m) \<Rightarrow> Inl (SystemExit 2)
      | Inl TypeError \<Rightarrow> Inl (SystemExit 2)
      | Inl (ValueError m) \<Rightarrow> Inl (SystemExit 2)
      | Inl e \<Rightarrow> Inl e
      | Inr v \<Rightarrow> Inr v)"

text \<open>What each action writes into the namespace.\<close>

definition apply_action :: "argument \<Rightarrow> pyval \<Rightarrow> pydict \<Rightarrow> pydict" where
  "apply_action a v ns =
     (case action a of
        Store \<Rightarrow> AList.update (dest a) v ns
      | StoreTrue \<Rightarrow> AList.update (dest a) (PBool True) ns
      | StoreFalse \<Rightarrow> AList.update (dest a) (PBool False) ns
      | Append \<Rightarrow>
          AList.update (dest a)
            (PList ((case map_of ns (dest a) of Some (PList items) \<Rightarrow> items | _ \<Rightarrow> []) @ [v])) ns)"

text \<open>
  An option conflicts when another option of its mutually exclusive group was given
  before it.
\<close>

definition conflicts :: "argument list \<Rightarrow> string list \<Rightarrow> argument \<Rightarrow> bool" where
  "conflicts args sn a =
     (case excl_group a of
        None \<Rightarrow> False
      | Some g \<Rightarrow> list_ex (\<lambda>b. excl_group b = Some g \<and> arg_name b \<noteq> arg_name a
                                \<and> arg_name b \<in> set sn) args)"

record pstate =
  namespace :: pydict
  seen :: "string list"
  positionals :: "argument list"
  extras :: "string list"

definition take_action :: "argument list \<Rightarrow> argument \<Rightarrow> pyval \<Rightarrow> pstate \<Rightarrow> py_exc + pstate" where
  "take_action args a v st =
     (if conflicts args (seen st) a then Inl (SystemExit 2)
      else Inr (st\<lparr>namespace := apply_action a v (namespace st),
                   seen := seen st @ [arg_name a]\<rparr>))"

text \<open>
  The value of a declared option: a flag takes none, the others take the explicit
  argument of \<open>--opt=value\<close> or else the next token, which must be positional-like.
  The result says whether the next token was used up.
\<close>

definition option_value ::
  "argument list \<Rightarrow> argument \<Rightarrow> string option \<Rightarrow> string list \<Rightarrow> py_exc + (pyval \<times> bool)" where
  "option_value args a e rest =
     (if action a = StoreTrue \<or> action a = StoreFalse
      then (case e of
              Some x \<Rightarrow> Inl (SystemExit 2)
            | None \<Rightarrow> Inr (PNone, False))
      else (case e of
              Some x \<Rightarrow> map_sum id (\<lambda>v. (v, False)) (get_value a x)
            | None \<Rightarrow>
                (case rest of
                   [] \<Rightarrow> Inl (SystemExit 2)
                 | x # xs \<Rightarrow>
                     if \<not> is_NotOptional (parse_optional args x) then Inl (SystemExit 2)
                     else map_sum id (\<lambda>v. (v, True)) (get_value a x))))"

text \<open>
  One step of the parser at token \<open>tok\<close>, with \<open>rest\<close> the tokens after it.
\<close>

definition consume_one ::
  "argument list \<Rightarrow> string \<Rightarrow> string list \<Rightarrow> pstate \<Rightarrow> py_exc + (pstate \<times> bool)" where
  "consume_one args tok rest st =
     (case parse_optional args tok of
        Ambiguous \<Rightarrow> Inl (SystemExit 2)
      | Unknown \<Rightarrow> Inr (st\<lparr>extras := extras st @ [tok]\<rparr>, False)
      | NotOptional \<Rightarrow>
          (case positionals st of
             [] \<Rightarrow> Inr (st\<lparr>extras := extras st @ [tok]\<rparr>, False)
           | p # ps \<Rightarrow>
               map_sum id
                 (\<lambda>v. (st\<lparr>namespace := apply_action p v (namespace st), positionals := ps\<rparr>,
                       False))
                 (get_value p tok))
      | Known a e \<Rightarrow>
          (case option_value args a e rest of
             Inl err \<Rightarrow> Inl err
           | Inr (v, used) \<Rightarrow> map_sum id (\<lambda>s. (s, used)) (take_action args a v st)))"

function consume :: "argument list \<Rightarrow> string list \<Rightarrow> pstate \<Rightarrow> py_exc + pstate" where
  "consume args [] st = Inr st"
| "consume args (tok # rest) st =
     (case consume_one args tok rest st of
        Inl e \<Rightarrow> Inl e
      | Inr (st', used) \<Rightarrow> consume args (if used then tl rest else rest) st')"
  by pat_completeness auto
termination
  by (relation "measure (\<lambda>(args, toks, st). length toks)") auto

text \<open>
  The whole run: defaults, the tokens from left to right, and the final check that no
  positional is left without a value.
\<close>

definition parse_state :: "argument list \<Rightarrow> string list \<Rightarrow> py_exc + pstate" where
  "parse_state args argv =
     (case consume args argv
             \<lparr>namespace = init_namespace args, seen = [],
              positionals = filter (\<lambda>a. option_strings a = []) args, extras = []\<rparr> of
        Inl e \<Rightarrow> Inl e
      | Inr st \<Rightarrow> if positionals st \<noteq> [] then Inl (SystemExit 2) else Inr st)"

definition parse_known_args :: "argument list \<Rightarrow> string list \<Rightarrow> py_exc + (pydict \<times> string list)" where
  "parse_known_args args argv = map_sum id (\<lambda>st. (namespace st, extras st)) (parse_state args argv)"


subsection \<open>Declaring arguments\<close>

definition str_type :: "string \<Rightarrow> py_exc + pyval" where
  "str_type s = Inr (PStr s)"

text \<open>\<open>parser.add_argument(flag, ..., dest=d)\<close> with the default action \<open>store\<close>.\<close>

definition add_argument_store :: "string list \<Rightarrow> string \<Rightarrow> argument" where
  "add_argument_store flags d =
     \<lparr>option_strings = flags, dest = d, action = Store, default_val = Some PNone,
      arg_type = str_type, excl_group = None\<rparr>"

text \<open>\<open>parser.add_argument('name', ...)\<close>: a positional.\<close>

definition add_argument_positional :: "string \<Rightarrow> argument" where
  "add_argument_positional d = add_argument_store [] d"

definition add_argument_store_false :: "string list \<Rightarrow> string \<Rightarrow> argument" where
  "add_argument_store_false flags d =
     \<lparr>option_strings = flags, dest = d, action = StoreFalse, default_val = Some (PBool True),
      arg_type = str_type, excl_group = None\<rparr>"

definition add_argument_store_true :: "string list \<Rightarrow> string \<Rightarrow> argument" where
  "add_argument_store_true flags d =
     \<lparr>option_strings = flags, dest = d, action = StoreTrue, default_val = Some (PBool False),
      arg_type = str_type, excl_group = None\<rparr>"

definition add_argument_append ::
  "string list \<Rightarrow> string \<Rightarrow> (string \<Rightarrow> py_exc + pyval) \<Rightarrow> argument" where
  "add_argument_append flags d ty =
     \<lparr>option_strings = flags, dest = d, action = Append, default_val = Some PNone,
      arg_type = ty, excl_group = None\<rparr>"

subsection \<open>Helpers of modules that are not part of the two files\<close>

text \<open>
  Modelled from the spec: \<open>utils.add_boolean_argument\<close> is defined in
  \<open>neutronclient/common/utils.py\<close>, which is not among the sources. The spec speaks of
  boolean flags that are translated to API booleans, and its scenario
  \<open>router-create myrouter --ha\<close> sends \<open>"ha": true\<close>: the option is a flag that stores
  the boolean true. A field the user did not specify must not reach the body, and
  \<open>UpdateRouter.args2body\<close> tests \<open>hasattr(parsed_args, 'admin_state')\<close>: the attribute
  does not exist unless the flag is given.
\<close>

definition add_boolean_argument :: "string \<Rightarrow> string \<Rightarrow> argument" where
  "add_boolean_argument name d =
     \<lparr>option_strings = [name], dest = d, action = StoreTrue, default_val = None,
      arg_type = str_type, excl_group = None\<rparr>"

text \<open>
  Modelled from the spec: \<open>neutronV20.update_dict\<close> is defined in
  \<open>neutronclient/neutron/v2_0/__init__.py\<close>, which is not among the sources. The spec
  requires a body with the specified fields and no extraneous null entries: each listed
  attribute that the parsed arguments carry with a value other than \<open>None\<close> is copied.
\<close>

fun update_dict :: "pydict \<Rightarrow> pydict \<Rightarrow> string list \<Rightarrow> pydict" where
  "update_dict obj d [] = d"
| "update_dict obj d (attribute # attributes) =
     update_dict obj
       (case map_of obj attribute of
          None \<Rightarrow> d
        | Some v \<Rightarrow> if v \<noteq> PNone then AList.update attribute v d else d)
       attributes"

text \<open>
  Modelled from the spec: the module \<open>availability_zone\<close> is not among the sources.
  \<open>add_az_hint_argument\<close> declares a repeatable option, and \<open>args2body_az_hint\<close> adds
  its values to the body when there are any (no null entry otherwise).
\<close>

definition add_az_hint_argument :: "string \<Rightarrow> argument list" where
  "add_az_hint_argument resource =
     [add_argument_append [''--availability-zone-hint''] ''availability_zone_hints'' str_type]"

definition args2body_az_hint :: "pydict \<Rightarrow> pydict \<Rightarrow> py_exc + pydict" where
  "args2body_az_hint parsed_args resource =
     (case getattr parsed_args ''availability_zone_hints'' of
        Inl e \<Rightarrow> Inl e
      | Inr v \<Rightarrow> Inr (if truthy v then AList.update ''availability_zone_hints'' v resource
                       else resource))"

text \<open>
  Modelled from the spec: \<open>neutronV20.CreateCommand\<close> is not among the sources. Its
  parser declares the option behind the attribute \<open>tenant_id\<close> that \<open>args2body\<close>
  copies, and then calls \<open>add_known_arguments\<close>.
\<close>

definition CreateCommand_get_parser :: "argument list \<Rightarrow> argument list" where
  "CreateCommand_get_parser known_arguments =
     add_argument_store [''--tenant-id''] ''tenant_id'' # known_arguments"

subsection \<open>router-create\<close>

definition CreateRouter_add_known_arguments :: "argument list" where
  "CreateRouter_add_known_arguments =
     [add_argument_store_false [''--admin-state-down''] ''admin_state'',
      add_argument_store_false [''--admin_state_down''] ''admin_state'',
      add_argument_positional ''name'',
      add_boolean_argument ''--distributed'' ''distributed'',
      add_boolean_argument ''--ha'' ''ha'']
     @ add_az_hint_argument ''router''"

definition CreateRouter_args2body :: "pydict \<Rightarrow> py_exc + pydict" where
  "CreateRouter_args2body parsed_args =
     (case getattr parsed_args ''admin_state'' of
        Inl e \<Rightarrow> Inl e
      | Inr admin_state \<Rightarrow>
          (case args2body_az_hint parsed_args
                  (update_dict parsed_args [(''admin_state_up'', admin_state)]
                     [''name'', ''tenant_id'', ''distributed'', ''ha'']) of
             Inl e \<Rightarrow> Inl e
           | Inr body \<Rightarrow> Inr [(''router'', PDict body)]))"

subsection \<open>router-update\<close>

text \<open>
  \<open>utils.str2dict_type(required_keys=['destination', 'nexthop'])\<close>, the conversion of a
  \<open>--route\<close> value, comes from \<open>utils\<close> and is the parameter \<open>route_type\<close>. The two
  route options form one mutually exclusive group.
\<close>

definition routes_group :: nat where
  "routes_group = 0"

definition UpdateRouter_add_known_arguments ::
  "(string \<Rightarrow> py_exc + pyval) \<Rightarrow> argument list" where
  "UpdateRouter_add_known_arguments route_type =
     [add_argument_store [''--name''] ''name'',
      add_boolean_argument ''--admin-state-up'' ''admin_state'',
      add_boolean_argument ''--admin_state_up'' ''admin_state'',
      add_boolean_argument ''--distributed'' ''distributed'',
      (add_argument_append [''--route''] ''routes'' route_type)\<lparr>excl_group := Some routes_group\<rparr>,
      (add_argument_store_true [''--no-routes''] ''no_routes'')\<lparr>excl_group := Some routes_group\<rparr>]"

definition UpdateRouter_args2body :: "pydict \<Rightarrow> py_exc + pydict" where
  "UpdateRouter_args2body parsed_args =
     (let body = (if hasattr parsed_args ''admin_state''
                  then (case map_of parsed_args ''admin_state'' of
                          Some v \<Rightarrow> [(''admin_state_up'', v)] | None \<Rightarrow> [])
                  else []);
          body = update_dict parsed_args body [''name'', ''distributed'']
      in case getattr parsed_args ''no_routes'' of
           Inl e \<Rightarrow> Inl e
         | Inr no_routes \<Rightarrow>
             if truthy no_routes
             then Inr [(''router'', PDict (AList.update ''routes'' PNone body))]
             else (case getattr parsed_args ''routes'' of
                     Inl e \<Rightarrow> Inl e
                   | Inr routes \<Rightarrow>
                       if truthy routes
                       then Inr [(''router'', PDict (AList.update ''routes'' routes body))]
                       else Inr [(''router'', PDict body)]))"

subsection \<open>The parser of router-gateway-clear\<close>

text \<open>
  \<open>RemoveGatewayRouter.get_parser\<close> adds its positional to the parser of the parent
  class, whose own declarations are the parameter \<open>inherited\<close>.
\<close>

definition RemoveGatewayRouter_get_parser :: "argument list \<Rightarrow> argument list" where
  "RemoveGatewayRouter_get_parser inherited = inherited @ [add_argument_positional ''router'']"

section \<open>shell.py\<close>

subsection \<open>run\_command\<close>

text \<open>
  A command object as \<open>run_command\<close> and \<open>run_subcommand\<close> use it: whether it is an
  instance of \<open>subnet.CreateSubnet\<close>, what the parser returned by \<open>cmd.get_parser\<close>
  does with an argument vector, and what \<open>cmd.run(known_args)\<close> does once
  \<open>cmd.values_specs\<close> is set.
\<close>

record command =
  is_CreateSubnet :: bool
  cmd_parser :: "string list \<Rightarrow> py_exc + (pydict \<times> string list)"
  cmd_run :: "pydict \<Rightarrow> string list \<Rightarrow> py_exc + pyval"

text \<open>\<open>xs.index(x)\<close> for an element that occurs in the list.\<close>

definition list_index :: "'a list \<Rightarrow> 'a \<Rightarrow> nat" where
  "list_index xs x = length (takeWhile (\<lambda>y. y \<noteq> x) xs)"

text \<open>\<open>utils.is_valid_cidr\<close> is a parameter.\<close>

definition get_first_valid_cidr :: "(string \<Rightarrow> bool) \<Rightarrow> string list \<Rightarrow> string option" where
  "get_first_valid_cidr is_valid_cidr value_specs = find is_valid_cidr value_specs"

text \<open>
  The adjustment for \<open>subnet-create\<close> (bug 1442771): when the command is a
  \<open>CreateSubnet\<close> and no \<open>cidr\<close> was parsed, the first leftover token that is a valid
  CIDR becomes \<open>known_args.cidr\<close> and is removed from the leftovers.
\<close>

definition adjust_cidr ::
  "(string \<Rightarrow> bool) \<Rightarrow> command \<Rightarrow> pydict \<Rightarrow> string list \<Rightarrow> py_exc + (pydict \<times> string list)" where
  "adjust_cidr is_valid_cidr cmd known_args values_specs =
     (if is_CreateSubnet cmd
      then (case getattr known_args ''cidr'' of
              Inl e \<Rightarrow> Inl e
            | Inr c \<Rightarrow>
                if \<not> truthy c
                then (case get_first_valid_cidr is_valid_cidr values_specs of
                        None \<Rightarrow> Inr (known_args, values_specs)
                      | Some cidr \<Rightarrow>
                          if cidr \<noteq> []
                          then Inr (AList.update ''cidr'' (PStr cidr) known_args,
                                    remove1 cidr values_specs)
                          else Inr (known_args, values_specs))
                else Inr (known_args, values_specs))
      else Inr (known_args, values_specs))"

text \<open>
  \<open>run_command(cmd, cmd_parser, sub_argv)\<close>. The last assignment is the Python idiom
  \<open>index == -1 and _values_specs or values_specs\<close>.
\<close>

definition run_command ::
  "(string \<Rightarrow> bool) \<Rightarrow> command \<Rightarrow> (string list \<Rightarrow> py_exc + (pydict \<times> string list)) \<Rightarrow>
   string list \<Rightarrow> pyval io" where
  "run_command is_valid_cidr cmd parser sub_argv =
     (let (index, argv, values_specs) =
            (if ''--'' \<in> set sub_argv
             then (int (list_index sub_argv ''--''),
                   take (list_index sub_argv ''--'') sub_argv,
                   drop (list_index sub_argv ''--'') sub_argv)
             else (- 1, sub_argv, []))
      in io_bind (io_call (ParseKnownArgs argv) (parser argv))
           (\<lambda>(known_args, leftover).
         io_bind (io_lift (adjust_cidr is_valid_cidr cmd known_args leftover))
           (\<lambda>(known_args, leftover).
         (let stored = (if index = - 1 \<and> leftover \<noteq> [] then leftover else values_specs)
          in io_call (RunCommand known_args stored) (cmd_run cmd known_args stored)))))"

subsection \<open>The shell\<close>

text \<open>
  What the shell gets from its surroundings: the command table, the global option
  parser, the command manager, the identity service and the interactive loop. Of the
  global options only \<open>verbose_level\<close> is read by the code modelled here.
\<close>

record options =
  verbose_level :: int

definition DEBUG_LEVEL :: int where
  "DEBUG_LEVEL = 2"

record shell_env =
  commands :: "string list"
  bash_completion :: "py_exc + unit"
  initial_options :: "options option"
  global_parse :: "string list \<Rightarrow> py_exc + (options \<times> string list)"
  find_command :: "string list \<Rightarrow> py_exc + (command \<times> string \<times> string list)"
  authenticate :: "options \<Rightarrow> py_exc + unit"
  interact :: "py_exc + pyval"
  is_valid_cidr :: "string \<Rightarrow> bool"

text \<open>The loop at the start of \<open>NeutronShell.run\<close>; \<open>None\<close> is the return for \<open>bash-completion\<close>.\<close>

record positions =
  command_pos :: int
  help_pos :: int
  help_command_pos :: int

fun scan_argv :: "string list \<Rightarrow> string list \<Rightarrow> int \<Rightarrow> positions \<Rightarrow> positions option" where
  "scan_argv cmds [] index pos = Some pos"
| "scan_argv cmds (arg # argv) index pos =
     (if arg = ''bash-completion'' \<and> help_command_pos pos = - 1 then None
      else scan_argv cmds argv (index + 1)
        (if arg \<in> set cmds
         then (if command_pos pos = - 1 then pos\<lparr>command_pos := index\<rparr> else pos)
         else if arg \<in> set [''-h'', ''--help'']
         then (if help_pos pos = - 1 then pos\<lparr>help_pos := index\<rparr> else pos)
         else if arg = ''help''
         then (if help_command_pos pos = - 1 then pos\<lparr>help_command_pos := index\<rparr> else pos)
         else pos))"

definition rewrite_argv :: "string list \<Rightarrow> string list \<Rightarrow> string list option" where
  "rewrite_argv cmds argv =
     (case scan_argv cmds argv 0 \<lparr>command_pos = - 1, help_pos = - 1, help_command_pos = - 1\<rparr> of
        None \<Rightarrow> None
      | Some pos \<Rightarrow>
          (let argv = (if command_pos pos > - 1 \<and> help_pos pos > command_pos pos
                       then [''help'', argv ! nat (command_pos pos)] else argv);
               argv = (if help_command_pos pos > - 1 \<and> command_pos pos = - 1
                       then argv[nat (help_command_pos pos) := ''--help''] else argv)
           in Some argv))"

definition authenticate_user :: "shell_env \<Rightarrow> options \<Rightarrow> unit io" where
  "authenticate_user env opts = io_call Authenticate (authenticate env opts)"

definition initialize_app :: "shell_env \<Rightarrow> options \<Rightarrow> bool \<Rightarrow> string list \<Rightarrow> unit io" where
  "initialize_app env opts interactive_mode argv =
     io_bind (if argv \<noteq> []
              then io_bind (io_lift (find_command env argv))
                     (\<lambda>(cmd, cmd_name, sub_argv). io_return (Some cmd_name))
              else io_return None)
       (\<lambda>cmd_name.
          if interactive_mode \<or> cmd_name \<noteq> Some ''help''
          then authenticate_user env opts
          else io_return ())"

text \<open>
  \<open>run_subcommand\<close>: \<open>find_command\<close> is outside the \<open>try\<close>; a \<open>SystemExit\<close> is
  raised again after the hint is printed; any other \<open>Exception\<close> is raised again in
  debug mode and otherwise logged, and then the method returns 1.
\<close>

definition run_subcommand :: "shell_env \<Rightarrow> options \<Rightarrow> string list \<Rightarrow> pyval io" where
  "run_subcommand env opts argv =
     io_bind (io_lift (find_command env argv))
       (\<lambda>(cmd, cmd_name, sub_argv).
          (case io_bind (io_call (PrepareToRunCommand cmd_name) (Inr ()))
                  (\<lambda>_. run_command (is_valid_cidr env) cmd (cmd_parser cmd) sub_argv) of
             (t, Inr v) \<Rightarrow> (t, Inr v)
           | (t, Inl (SystemExit c)) \<Rightarrow> (t, Inl (SystemExit c))
           | (t, Inl e) \<Rightarrow>
               if is_Exception e
               then (if verbose_level opts \<ge> DEBUG_LEVEL then (t, Inl e) else (t, Inr (PInt 1)))
               else (t, Inl e)))"

text \<open>
  The handler \<open>except Exception as err\<close> of \<open>NeutronShell.run\<close>, for the events \<open>t\<close>
  so far and the value of \<open>self.options\<close> at that moment: reading \<open>verbose_level\<close>
  of options that were never set is an \<open>AttributeError\<close>.
\<close>

definition run_except :: "options option \<Rightarrow> event list \<Rightarrow> py_exc \<Rightarrow> pyval io" where
  "run_except opts t e =
     (if is_Exception e
      then (case opts of
              None \<Rightarrow> (t, Inl (AttributeError ''verbose_level''))
            | Some options \<Rightarrow>
                if verbose_level options \<ge> DEBUG_LEVEL then (t, Inl e) else (t, Inr (PInt 1)))
      else (t, Inl e))"

definition NeutronShell_run :: "shell_env \<Rightarrow> string list \<Rightarrow> pyval io" where
  "NeutronShell_run env argv =
     (case rewrite_argv (commands env) argv of
        None \<Rightarrow>
          (case bash_completion env of
             Inl e \<Rightarrow> run_except (initial_options env) [BashCompletion] e
           | Inr u \<Rightarrow> ([BashCompletion], Inr (PInt 0)))
      | Some argv \<Rightarrow>
          (case global_parse env argv of
             Inl e \<Rightarrow> run_except (initial_options env) [ParseGlobalOptions argv] e
           | Inr (opts, remainder) \<Rightarrow>
               (case initialize_app env opts (remainder = []) remainder of
                  (t, Inl e) \<Rightarrow> run_except (Some opts) (ParseGlobalOptions argv # t) e
                | (t, Inr u) \<Rightarrow>
                    io_bind (ParseGlobalOptions argv # t, Inr ())
                      (\<lambda>_. if remainder = []
                            then io_call Interact (interact env)
                            else run_subcommand env opts remainder))))"

text \<open>
  \<open>main\<close>. Which exceptions are instances of \<open>exc.NeutronClientException\<close> is decided
  by a module that is not among the sources; both handlers return 1, and only the
  constructor of that name is counted here.
\<close>

fun is_NeutronClientException :: "py_exc \<Rightarrow> bool" where
  "is_NeutronClientException (NeutronClientException m) = True"
| "is_NeutronClientException e = False"

definition main :: "shell_env \<Rightarrow> string list \<Rightarrow> pyval io" where
  "main env argv =
     (case NeutronShell_run env argv of
        (t, Inr v) \<Rightarrow> (t, Inr v)
      | (t, Inl KeyboardInterrupt) \<Rightarrow> (t, Inr (PInt 130))
      | (t, Inl e) \<Rightarrow>
          if is_NeutronClientException e then (t, Inr (PInt 1))
          else if is_Exception e then (t, Inr (PInt 1))
          else (t, Inl e))"

text \<open>
  \<open>sys.exit(main(sys.argv[1:]))\<close>: the status of the process. \<open>None\<close> is 0, an
  integer is its low eight bits, any other object is printed and gives 1; a
  \<open>SystemExit\<close> that passed through \<open>main\<close> ends the process with its own code, any
  other exception that escaped with 1.
\<close>

fun exit_status :: "pyval \<Rightarrow> int" where
  "exit_status PNone = 0"
| "exit_status (PInt n) = n mod 256"
| "exit_status (PBool b) = (if b then 1 else 0)"
| "exit_status v = 1"

fun process_exit_status :: "py_exc + pyval \<Rightarrow> int" where
  "process_exit_status (Inr v) = exit_status v"
| "process_exit_status (Inl (SystemExit c)) = c mod 256"
| "process_exit_status (Inl e) = 1"


subsection \<open>The dispatcher as the specification describes it\<close>

text \<open>
  Modelled from the spec: the dispatcher of section 4.1 and the exit codes of sections
  6 and 7, to be compared with \<open>main\<close>. An invocation is a sequence of steps (the
  completion listing; or the global options, the initialisation with its
  authentication, and then the interactive loop or the lookup and the run of the
  command); the first step that fails ends the invocation and is its outcome. The
  exit code follows from the outcome alone.
\<close>

definition dispatch_spec :: "shell_env \<Rightarrow> string list \<Rightarrow> pyval io" where
  "dispatch_spec env argv =
     (case rewrite_argv (commands env) argv of
        None \<Rightarrow> io_bind (io_call BashCompletion (bash_completion env)) (\<lambda>_. io_return (PInt 0))
      | Some argv \<Rightarrow>
          io_bind (io_call (ParseGlobalOptions argv) (global_parse env argv))
            (\<lambda>(opts, remainder).
          io_bind (initialize_app env opts (remainder = []) remainder)
            (\<lambda>_.
          if remainder = [] then io_call Interact (interact env)
          else io_bind (io_lift (find_command env remainder))
                 (\<lambda>(cmd, cmd_name, sub_argv).
               io_bind (io_call (PrepareToRunCommand cmd_name) (Inr ()))
                 (\<lambda>_. run_command (is_valid_cidr env) cmd (cmd_parser cmd) sub_argv)))))"

fun exit_code_spec :: "py_exc + pyval \<Rightarrow> int" where
  "exit_code_spec (Inr v) = exit_status v"
| "exit_code_spec (Inl KeyboardInterrupt) = 130"
| "exit_code_spec (Inl (SystemExit c)) = c mod 256"
| "exit_code_spec (Inl e) = 1"

subsection \<open>A shell with one command\<close>

text \<open>
  An instance of the surroundings, to evaluate the shell on concrete argument vectors:
  the command table holds \<open>router-gateway-clear\<close>, whose parser is the one
  \<open>RemoveGatewayRouter.get_parser\<close> declares and whose \<open>run\<close> is
  \<open>RemoveGatewayRouter.run\<close>; there are no global options, so every token is left to
  the command; the service knows one router, named \<open>myrouter\<close>.
\<close>

definition example_client :: neutron_client where
  "example_client =
     \<lparr>resolve = (\<lambda>res tok. if res = ''router'' \<and> tok = ''myrouter'' then Inr ''id-123''
                            else Inl (NotFound res tok)),
      add_interface_router = (\<lambda>i b. Inr (PDict [(''port_id'', PStr ''port-1'')])),
      remove_interface_router = (\<lambda>i b. Inr PNone),
      remove_gateway_router = (\<lambda>i. Inr PNone)\<rparr>"

definition RemoveGatewayRouter_command :: "neutron_client \<Rightarrow> command" where
  "RemoveGatewayRouter_command client =
     \<lparr>is_CreateSubnet = False,
      cmd_parser = parse_known_args (RemoveGatewayRouter_get_parser []),
      cmd_run = (\<lambda>known_args values_specs.
         (case map_of known_args ''router'' of
            Some (PStr r) \<Rightarrow>
              map_sum id (\<lambda>u. PNone) (snd (RemoveGatewayRouter_run client \<lparr>router = r\<rparr>))
          | _ \<Rightarrow> Inl (AttributeError ''router'')))\<rparr>"

definition example_shell :: shell_env where
  "example_shell =
     \<lparr>commands = [''router-gateway-clear''],
      bash_completion = Inr (),
      initial_options = None,
      global_parse = (\<lambda>argv. Inr (\<lparr>verbose_level = 0\<rparr>, argv)),
      find_command = (\<lambda>argv.
         (case argv of
            [] \<Rightarrow> Inl (ValueError ''Unknown command'')
          | name # rest \<Rightarrow>
              if name = ''router-gateway-clear''
              then Inr (RemoveGatewayRouter_command example_client, name, rest)
              else Inl (ValueError ''Unknown command''))),
      authenticate = (\<lambda>opts. Inr ()),
      interact = Inr (PInt 0),
      is_valid_cidr = (\<lambda>s. False)\<rparr>"

section \<open>Name resolution\<close>

text \<open>
  Modelled from the spec: \<open>neutronV20.find_resourceid_by_name_or_id\<close> is defined in
  \<open>neutronclient/neutron/v2_0/__init__.py\<close>, which is not among the sources; the
  router commands only call it. Section 4.3 of the spec: a token in the identifier
  format of the service is taken as the identifier, with no query; any other token is
  looked up by a query of the collection filtered by display name, and zero matches
  fail with \<open>NotFound\<close>, more than one match fails with \<open>AmbiguousReference\<close> listing
  the candidates, exactly one match gives its identifier. A record of a collection is
  its identifier and its display name.
\<close>

record service =
  is_identifier :: "string \<Rightarrow> bool"
  collection :: "string \<Rightarrow> (string \<times> string) list"

definition list_by_name :: "service \<Rightarrow> string \<Rightarrow> string \<Rightarrow> (string \<times> string) list" where
  "list_by_name svc resource name = filter (\<lambda>r. snd r = name) (collection svc resource)"

definition find_resourceid_by_name_or_id_spec ::
  "service \<Rightarrow> string \<Rightarrow> string \<Rightarrow> string io" where
  "find_resourceid_by_name_or_id_spec svc resource token =
     (if is_identifier svc token then io_return token
      else io_bind (io_call (ListByName resource token) (Inr (list_by_name svc resource token)))
             (\<lambda>matches.
                (case matches of
                   [] \<Rightarrow> io_raise (NotFound resource token)
                 | [r] \<Rightarrow> io_return (fst r)
                 | _ \<Rightarrow> io_raise (AmbiguousReference resource token (map fst matches)))))"

section \<open>Predicates used in the statements\<close>

text \<open>
  What an action leaves in the attribute it writes: the converted value, a boolean, or a
  list that is not empty.
\<close>

definition written :: "argument \<Rightarrow> pyval \<Rightarrow> bool" where
  "written a v =
     (case action a of
        Store \<Rightarrow> (\<exists>s. arg_type a s = Inr v)
      | StoreTrue \<Rightarrow> v = PBool True
      | StoreFalse \<Rightarrow> v = PBool False
      | Append \<Rightarrow> (\<exists>xs. v = PList xs \<and> xs \<noteq> []))"



section \<open>Verified properties\<close>

lemmas io_defs = io_bind_def io_call_def io_lift_def io_return_def io_raise_def
  print_stdout_def find_resourceid_by_name_or_id_def

subsection \<open>The argument parser\<close>

lemma find_in_set: "find P xs = Some a \<Longrightarrow> a \<in> set xs"
  by (auto simp: find_Some_iff)

lemma get_option_tuples_set: "(a, e) \<in> set (get_option_tuples args s) \<Longrightarrow> a \<in> set args"
  by (auto simp: get_option_tuples_def split: if_splits)

lemma parse_optional_Known: "parse_optional args s = Known a e \<Longrightarrow> a \<in> set args"
proof -
  assume k: "parse_optional args s = Known a e"
  have sing: "get_option_tuples args s = [(a', e')] \<Longrightarrow> a' \<in> set args" for a' e'
    using get_option_tuples_set [of a' e' args s] by simp
  from k show ?thesis
    by (auto simp: parse_optional_def split: if_splits option.splits list.splits
        dest: find_in_set sing)
qed

lemma map_sum_Inr_iff: "map_sum f g x = Inr y \<longleftrightarrow> (\<exists>v. x = Inr v \<and> y = g v)"
  by (cases x) auto

lemma get_value_Inr: "get_value a s = Inr v \<Longrightarrow> arg_type a s = Inr v"
  by (auto simp: get_value_def split: sum.splits py_exc.splits)

lemma option_value_typed:
  "option_value args a e rest = Inr (v, used) \<Longrightarrow> action a = Store \<or> action a = Append \<Longrightarrow>
     \<exists>s. arg_type a s = Inr v"
  by (auto simp: option_value_def map_sum_Inr_iff split: if_splits option.splits list.splits
      dest: get_value_Inr)

lemma take_action_Inr:
  "take_action args a v st = Inr st' \<Longrightarrow>
     \<not> conflicts args (seen st) a \<and> positionals st' = positionals st
     \<and> seen st' = seen st @ [arg_name a] \<and> namespace st' = apply_action a v (namespace st)"
  by (auto simp: take_action_def split: if_splits)

text \<open>The three kinds of successful step.\<close>

lemma consume_one_cases:
  assumes "consume_one args tok rest st = Inr (st', used)"
  obtains
    (skip) "namespace st' = namespace st" "seen st' = seen st" "positionals st' = positionals st"
  | (pos) p ps v where "positionals st = p # ps" "positionals st' = ps" "seen st' = seen st"
      "namespace st' = apply_action p v (namespace st)" "\<exists>s. arg_type p s = Inr v"
  | (opt) a e v where "parse_optional args tok = Known a e" "\<not> conflicts args (seen st) a"
      "positionals st' = positionals st" "seen st' = seen st @ [arg_name a]"
      "namespace st' = apply_action a v (namespace st)"
      "action a = Store \<or> action a = Append \<longrightarrow> (\<exists>s. arg_type a s = Inr v)"
proof (cases "parse_optional args tok")
  case NotOptional
  show ?thesis
  proof (cases "positionals st")
    case Nil
    with NotOptional assms show ?thesis by (intro skip) (auto simp: consume_one_def)
  next
    case (Cons p ps)
    with NotOptional assms obtain v where v: "get_value p tok = Inr v"
      and st': "st' = st\<lparr>namespace := apply_action p v (namespace st), positionals := ps\<rparr>"
      by (auto simp: consume_one_def map_sum_Inr_iff)
    from v have "\<exists>s. arg_type p s = Inr v" by (blast dest: get_value_Inr)
    with Cons st' show ?thesis by (intro pos [of p ps v]) auto
  qed
next
  case (Known a e)
  with assms obtain v where ov: "option_value args a e rest = Inr (v, used)"
    and ta: "take_action args a v st = Inr st'"
    by (auto simp: consume_one_def map_sum_Inr_iff split: sum.splits prod.splits)
  from ov have "action a = Store \<or> action a = Append \<longrightarrow> (\<exists>s. arg_type a s = Inr v)"
    by (blast dest: option_value_typed)
  with Known take_action_Inr [OF ta] show ?thesis by (intro opt [of a e v]) auto
next
  case Unknown
  with assms show ?thesis by (intro skip) (auto simp: consume_one_def)
next
  case Ambiguous
  with assms show ?thesis by (simp add: consume_one_def)
qed

lemma map_of_apply_action:
  assumes "map_of (apply_action a v ns) d = Some w"
      and "action a = Store \<or> action a = Append \<longrightarrow> (\<exists>s. arg_type a s = Inr v)"
  shows "map_of ns d = Some w \<or> (dest a = d \<and> written a w)"
  using assms
  by (cases "action a") (auto simp: apply_action_def written_def update_conv' split: if_splits)

lemma apply_action_keys: "map_of ns d \<noteq> None \<Longrightarrow> map_of (apply_action a v ns) d \<noteq> None"
  by (cases "action a") (auto simp: apply_action_def update_conv')

lemma apply_action_other: "dest a \<noteq> d \<Longrightarrow> map_of (apply_action a v ns) d = map_of ns d"
  by (cases "action a") (auto simp: apply_action_def update_conv')

lemma apply_action_StoreTrue:
  "action a = StoreTrue \<Longrightarrow> map_of (apply_action a v ns) (dest a) = Some (PBool True)"
  by (auto simp: apply_action_def update_conv')


lemma consume_step:
  assumes "consume args (tok # rest) st = Inr st'"
  obtains st1 used where "consume_one args tok rest st = Inr (st1, used)"
    and "consume args (if used then tl rest else rest) st1 = Inr st'"
  using assms by (auto split: sum.splits)

lemma set_rest_subset: "set (if used then tl rest else rest) \<subseteq> set rest"
  by (cases rest) auto

lemma consume_seen_mono:
  "consume args toks st = Inr st' \<Longrightarrow> set (seen st) \<subseteq> set (seen st')"
proof (induction args toks st rule: consume.induct)
  case (1 args st)
  then show ?case by simp
next
  case (2 args tok rest st)
  from "2.prems" obtain st1 used where
    one: "consume_one args tok rest st = Inr (st1, used)" and
    more: "consume args (if used then tl rest else rest) st1 = Inr st'"
    by (rule consume_step)
  have "set (seen st) \<subseteq> set (seen st1)"
    using one by (cases rule: consume_one_cases) auto
  with "2.IH" [OF one refl more] show ?case by blast
qed

lemma consume_keys:
  "consume args toks st = Inr st' \<Longrightarrow> map_of (namespace st) d \<noteq> None \<Longrightarrow>
     map_of (namespace st') d \<noteq> None"
proof (induction args toks st rule: consume.induct)
  case (1 args st)
  then show ?case by simp
next
  case (2 args tok rest st)
  from "2.prems"(1) obtain st1 used where
    one: "consume_one args tok rest st = Inr (st1, used)" and
    more: "consume args (if used then tl rest else rest) st1 = Inr st'"
    by (rule consume_step)
  have "map_of (namespace st1) d \<noteq> None"
    using one
  proof (cases rule: consume_one_cases)
    case skip
    with "2.prems"(2) show ?thesis by simp
  next
    case (pos p ps v)
    with apply_action_keys [OF "2.prems"(2)] show ?thesis by simp
  next
    case (opt a e v)
    with apply_action_keys [OF "2.prems"(2)] show ?thesis by simp
  qed
  with "2.IH" [OF one refl more] show ?case by blast
qed

lemma consume_seen_given:
  "consume args toks st = Inr st' \<Longrightarrow> n \<in> set (seen st') \<Longrightarrow>
     n \<in> set (seen st)
     \<or> (\<exists>tok\<in>set toks. \<exists>a e. parse_optional args tok = Known a e \<and> arg_name a = n)"
proof (induction args toks st rule: consume.induct)
  case (1 args st)
  then show ?case by simp
next
  case (2 args tok rest st)
  from "2.prems"(1) obtain st1 used where
    one: "consume_one args tok rest st = Inr (st1, used)" and
    more: "consume args (if used then tl rest else rest) st1 = Inr st'"
    by (rule consume_step)
  from "2.IH" [OF one refl more "2.prems"(2)]
  consider (old) "n \<in> set (seen st1)"
    | (later) tok' a e where "tok' \<in> set (if used then tl rest else rest)"
        "parse_optional args tok' = Known a e" "arg_name a = n"
    by blast
  then show ?case
  proof cases
    case old
    from one show ?thesis
      using old by (cases rule: consume_one_cases) auto
  next
    case later
    from later(1) set_rest_subset [of used rest] have "tok' \<in> set (tok # rest)" by auto
    with later(2,3) show ?thesis by blast
  qed
qed

text \<open>What a successful run of the loop can have done to one attribute.\<close>

lemma consume_written:
  assumes "consume args toks st = Inr st'" and "map_of (namespace st') d = Some w"
  shows "map_of (namespace st) d = Some w
       \<or> (\<exists>a. dest a = d \<and> written a w
              \<and> ((a \<in> set args \<and> arg_name a \<in> set (seen st')) \<or> a \<in> set (positionals st)))"
  using assms
proof (induction args toks st rule: consume.induct)
  case (1 args st)
  then show ?case by simp
next
  case (2 args tok rest st)
  from "2.prems"(1) obtain st1 used where
    one: "consume_one args tok rest st = Inr (st1, used)" and
    more: "consume args (if used then tl rest else rest) st1 = Inr st'"
    by (auto split: sum.splits)
  from "2.IH" [OF one refl more "2.prems"(2)]
  consider (old) "map_of (namespace st1) d = Some w"
    | (new) a where "dest a = d" "written a w"
        "(a \<in> set args \<and> arg_name a \<in> set (seen st')) \<or> a \<in> set (positionals st1)"
    by blast
  then show ?case
  proof cases
    case old
    from one show ?thesis
    proof (cases rule: consume_one_cases)
      case skip
      with old show ?thesis by simp
    next
      case (pos p ps v)
      with old map_of_apply_action [of p v "namespace st" d w] show ?thesis by auto
    next
      case (opt a e v)
      have "a \<in> set args" using opt(1) by (rule parse_optional_Known)
      moreover have "arg_name a \<in> set (seen st')"
        using consume_seen_mono [OF more] opt(4) by auto
      ultimately show ?thesis
        using old opt map_of_apply_action [of a v "namespace st" d w] by auto
    qed
  next
    case new
    from one show ?thesis
    proof (cases rule: consume_one_cases)
      case skip
      with new show ?thesis by auto
    next
      case (pos p ps v)
      with new show ?thesis by auto
    next
      case (opt a e v)
      with new show ?thesis by auto
    qed
  qed
qed

lemma consume_one_positionals:
  "consume_one args tok rest st = Inr (st1, used) \<Longrightarrow>
     set (positionals st1) \<subseteq> set (positionals st)"
  by (erule consume_one_cases) auto

lemma consume_one_seen_names:
  assumes "consume_one args tok rest st = Inr (st1, used)"
      and "set (seen st) \<subseteq> arg_name ` set args"
  shows "set (seen st1) \<subseteq> arg_name ` set args"
  using assms(1)
proof (cases rule: consume_one_cases)
  case skip
  with assms(2) show ?thesis by simp
next
  case (pos p ps v)
  with assms(2) show ?thesis by simp
next
  case (opt a e v)
  have "a \<in> set args" using opt(1) by (rule parse_optional_Known)
  with opt assms(2) show ?thesis by auto
qed

text \<open>A flag that was given has set its attribute to true.\<close>

lemma consume_flag:
  assumes "consume args toks st = Inr st'"
      and "\<forall>a. (a \<in> set args \<or> a \<in> set (positionals st)) \<and> dest a = d \<longrightarrow> action a = StoreTrue"
      and "\<forall>a\<in>set args. arg_name a = n \<longrightarrow> dest a = d"
      and "n \<in> set (seen st) \<longrightarrow> map_of (namespace st) d = Some (PBool True)"
  shows "n \<in> set (seen st') \<longrightarrow> map_of (namespace st') d = Some (PBool True)"
  using assms
proof (induction args toks st rule: consume.induct)
  case (1 args st)
  then show ?case by simp
next
  case (2 args tok rest st)
  from "2.prems"(1) obtain st1 used where
    one: "consume_one args tok rest st = Inr (st1, used)" and
    more: "consume args (if used then tl rest else rest) st1 = Inr st'"
    by (rule consume_step)
  have inv: "n \<in> set (seen st1) \<longrightarrow> map_of (namespace st1) d = Some (PBool True)"
    using one
  proof (cases rule: consume_one_cases)
    case skip
    with "2.prems"(4) show ?thesis by simp
  next
    case (pos p ps v)
    show ?thesis
    proof (cases "dest p = d")
      case True
      with "2.prems"(2) pos(1) have "action p = StoreTrue" by auto
      with True pos show ?thesis by (auto simp: apply_action_StoreTrue)
    next
      case False
      with pos "2.prems"(4) show ?thesis by (auto simp: apply_action_other)
    qed
  next
    case (opt a e v)
    have a: "a \<in> set args" using opt(1) by (rule parse_optional_Known)
    show ?thesis
    proof (cases "dest a = d")
      case True
      with "2.prems"(2) a have "action a = StoreTrue" by auto
      with True opt show ?thesis by (auto simp: apply_action_StoreTrue)
    next
      case False
      with a "2.prems"(3) have "arg_name a \<noteq> n" by auto
      with False opt "2.prems"(4) show ?thesis by (auto simp: apply_action_other)
    qed
  qed
  from consume_one_positionals [OF one] "2.prems"(2)
  have "\<forall>a. (a \<in> set args \<or> a \<in> set (positionals st1)) \<and> dest a = d \<longrightarrow> action a = StoreTrue"
    by blast
  from "2.IH" [OF one refl more this "2.prems"(3) inv] show ?case .
qed

text \<open>Two options of one mutually exclusive group are never both accepted.\<close>

lemma consume_exclusive:
  assumes "consume args toks st = Inr st'"
      and "n1 \<noteq> n2"
      and "\<forall>a\<in>set args. arg_name a = n1 \<or> arg_name a = n2 \<longrightarrow> excl_group a = Some g"
      and "set (seen st) \<subseteq> arg_name ` set args"
      and "\<not> (n1 \<in> set (seen st) \<and> n2 \<in> set (seen st))"
  shows "\<not> (n1 \<in> set (seen st') \<and> n2 \<in> set (seen st'))"
  using assms
proof (induction args toks st rule: consume.induct)
  case (1 args st)
  then show ?case by simp
next
  case (2 args tok rest st)
  from "2.prems"(1) obtain st1 used where
    one: "consume_one args tok rest st = Inr (st1, used)" and
    more: "consume args (if used then tl rest else rest) st1 = Inr st'"
    by (rule consume_step)
  have names: "set (seen st1) \<subseteq> arg_name ` set args"
    using one "2.prems"(4) by (rule consume_one_seen_names)
  have excl: "\<not> (n1 \<in> set (seen st1) \<and> n2 \<in> set (seen st1))"
    using one
  proof (cases rule: consume_one_cases)
    case skip
    with "2.prems"(5) show ?thesis by simp
  next
    case (pos p ps v)
    with "2.prems"(5) show ?thesis by simp
  next
    case (opt a e v)
    have a: "a \<in> set args" using opt(1) by (rule parse_optional_Known)
    show ?thesis
    proof
      assume both: "n1 \<in> set (seen st1) \<and> n2 \<in> set (seen st1)"
      with opt(4) "2.prems"(5) "2.prems"(2)
      obtain m where m: "m \<in> set (seen st)" "m \<noteq> arg_name a" "m = n1 \<or> m = n2"
        and an: "arg_name a = n1 \<or> arg_name a = n2"
        by auto
      from m(1) "2.prems"(4) obtain b where b: "b \<in> set args" "arg_name b = m" by auto
      from b m(3) "2.prems"(3) have gb: "excl_group b = Some g" by auto
      from a an "2.prems"(3) have ga: "excl_group a = Some g" by auto
      from ga gb b m have "conflicts args (seen st) a"
        by (auto simp: conflicts_def list_ex_iff)
      with opt(2) show False by simp
    qed
  qed
  from "2.IH" [OF one refl more "2.prems"(2,3) names excl] show ?case .
qed

lemma map_of_set_default:
  "map_of (set_default ns a) d =
     (case map_of ns d of
        Some v \<Rightarrow> Some v
      | None \<Rightarrow> if dest a = d then default_val a else None)"
  by (auto simp: set_default_def hasattr_def update_conv' split: option.splits)

lemma map_of_foldl_set_default:
  "map_of (foldl set_default ns args) d =
     (case map_of ns d of
        Some v \<Rightarrow> Some v
      | None \<Rightarrow> (case find (\<lambda>a. dest a = d \<and> default_val a \<noteq> None) args of
                   None \<Rightarrow> None
                 | Some a \<Rightarrow> default_val a))"
proof (induction args arbitrary: ns)
  case Nil
  then show ?case by (simp split: option.splits)
next
  case (Cons a args)
  show ?case
    by (simp add: Cons.IH map_of_set_default split: option.splits)
qed

lemma map_of_init_namespace:
  "map_of (init_namespace args) d =
     (case find (\<lambda>a. dest a = d \<and> default_val a \<noteq> None) args of
        None \<Rightarrow> None
      | Some a \<Rightarrow> default_val a)"
  by (simp add: init_namespace_def map_of_foldl_set_default)

lemma find_append_none:
  "\<forall>a\<in>set xs. \<not> P a \<Longrightarrow> find P (xs @ ys) = find P ys"
  by (induction xs) auto

lemma map_of_update_dict:
  "map_of (update_dict obj d attrs) k =
     (if k \<in> set attrs \<and> (\<exists>v. map_of obj k = Some v \<and> v \<noteq> PNone)
      then map_of obj k else map_of d k)"
  by (induction attrs arbitrary: d) (auto simp: update_conv' split: option.splits)

lemmas add_argument_defs = add_argument_store_def add_argument_positional_def
  add_argument_store_false_def add_argument_store_true_def add_argument_append_def
  add_boolean_argument_def

subsection \<open>The router commands\<close>

text \<open>
  C5. \<open>router-gateway-clear\<close>: when the token given for the router resolves to an
  identifier and the service accepts the call, the command calls the remove-gateway
  endpoint with the resolved identifier and prints
  \<open>Removed gateway from router <token>\<close> with the token the user typed, not the
  identifier. These are all the effects, in this order.
\<close>

theorem remove_gateway_prints_token:
  assumes "resolve client ''router'' token = Inr rid"
      and "remove_gateway_router client rid = Inr r"
  shows "RemoveGatewayRouter_run client \<lparr>router = token\<rparr> =
           ([FindResourceId ''router'' token, RemoveGatewayRouterCall rid,
             Stdout (''Removed gateway from router '' @ token)], Inr ())"
  using assms by (simp add: RemoveGatewayRouter_run_def io_defs)

theorem remove_gateway_prints_token_witness:
  "RemoveGatewayRouter_run
     \<lparr>resolve = (\<lambda>res tok. if res = ''router'' \<and> tok = ''myrouter'' then Inr ''id-123''
                             else Inl (NotFound res tok)),
      add_interface_router = (\<lambda>i b. Inr PNone),
      remove_interface_router = (\<lambda>i b. Inr PNone),
      remove_gateway_router = (\<lambda>i. Inr PNone)\<rparr>
     \<lparr>router = ''myrouter''\<rparr> =
   ([FindResourceId ''router'' ''myrouter'', RemoveGatewayRouterCall ''id-123'',
     Stdout ''Removed gateway from router myrouter''], Inr ())"
  using remove_gateway_prints_token
    [of "\<lparr>resolve = (\<lambda>res tok. if res = ''router'' \<and> tok = ''myrouter'' then Inr ''id-123''
                             else Inl (NotFound res tok)),
      add_interface_router = (\<lambda>i b. Inr PNone),
      remove_interface_router = (\<lambda>i b. Inr PNone),
      remove_gateway_router = (\<lambda>i. Inr PNone)\<rparr>" "''myrouter''" "''id-123''" PNone]
  by simp


subsection \<open>router-update\<close>

lemma UpdateRouter_arguments_cases:
  assumes "a \<in> set (UpdateRouter_add_known_arguments rt)"
  shows "(dest a = ''name'' \<and> arg_name a = ''--name'' \<and> action a = Store \<and> arg_type a = str_type)
       \<or> (dest a = ''admin_state'' \<and> arg_name a = ''--admin-state-up'' \<and> action a = StoreTrue)
       \<or> (dest a = ''admin_state'' \<and> arg_name a = ''--admin_state_up'' \<and> action a = StoreTrue)
       \<or> (dest a = ''distributed'' \<and> arg_name a = ''--distributed'' \<and> action a = StoreTrue)
       \<or> (dest a = ''routes'' \<and> arg_name a = ''--route'' \<and> action a = Append
            \<and> excl_group a = Some routes_group)
       \<or> (dest a = ''no_routes'' \<and> arg_name a = ''--no-routes'' \<and> action a = StoreTrue
            \<and> excl_group a = Some routes_group)"
proof -
  from assms have "a = add_argument_store [''--name''] ''name''
      \<or> a = add_boolean_argument ''--admin-state-up'' ''admin_state''
      \<or> a = add_boolean_argument ''--admin_state_up'' ''admin_state''
      \<or> a = add_boolean_argument ''--distributed'' ''distributed''
      \<or> a = (add_argument_append [''--route''] ''routes'' rt)\<lparr>excl_group := Some routes_group\<rparr>
      \<or> a = (add_argument_store_true [''--no-routes''] ''no_routes'')\<lparr>excl_group := Some routes_group\<rparr>"
    unfolding UpdateRouter_add_known_arguments_def by simp
  then show ?thesis
    by (elim disjE) (simp_all add: add_argument_defs arg_name_def)
qed

lemma UpdateRouter_arguments_options:
  "a \<in> set (UpdateRouter_add_known_arguments rt) \<Longrightarrow> option_strings a \<noteq> []"
  unfolding UpdateRouter_add_known_arguments_def
  by (simp add: add_argument_defs) (elim disjE; simp)

lemma init_namespace_append:
  "\<forall>a\<in>set xs. dest a \<noteq> d \<Longrightarrow>
     map_of (init_namespace (xs @ ys)) d = map_of (init_namespace ys) d"
  by (simp add: map_of_init_namespace find_append_none)

lemma UpdateRouter_defaults:
  "map_of (init_namespace (UpdateRouter_add_known_arguments rt)) ''name'' = Some PNone"
  "map_of (init_namespace (UpdateRouter_add_known_arguments rt)) ''admin_state'' = None"
  "map_of (init_namespace (UpdateRouter_add_known_arguments rt)) ''distributed'' = None"
  "map_of (init_namespace (UpdateRouter_add_known_arguments rt)) ''routes'' = Some PNone"
  "map_of (init_namespace (UpdateRouter_add_known_arguments rt)) ''no_routes'' = Some (PBool False)"
  by (simp_all add: map_of_init_namespace UpdateRouter_add_known_arguments_def
      add_argument_defs)

lemma truthy_not_None: "truthy w \<Longrightarrow> w \<noteq> PNone"
  by (cases w) auto

lemma UpdateRouter_args2body_fields:
  assumes n: "\<forall>w. map_of ns ''name'' = Some w \<longrightarrow> w \<noteq> PNone \<longrightarrow> ''--name'' \<in> set sn"
      and a: "\<forall>w. map_of ns ''admin_state'' = Some w \<longrightarrow>
                w \<noteq> PNone \<and> (''--admin-state-up'' \<in> set sn \<or> ''--admin_state_up'' \<in> set sn)"
      and d: "\<forall>w. map_of ns ''distributed'' = Some w \<longrightarrow> w \<noteq> PNone \<longrightarrow> ''--distributed'' \<in> set sn"
      and r: "map_of ns ''routes'' = Some rv" "truthy rv \<longrightarrow> ''--route'' \<in> set sn"
      and nr: "map_of ns ''no_routes'' = Some nv" "truthy nv \<longrightarrow> ''--no-routes'' \<in> set sn"
      and f: "''--no-routes'' \<in> set sn \<longrightarrow> nv = PBool True"
  shows "\<exists>body. UpdateRouter_args2body ns = Inr [(''router'', PDict body)]
           \<and> (\<forall>k v. map_of body k = Some v \<longrightarrow>
                 (k = ''admin_state_up'' \<and> v \<noteq> PNone
                    \<and> (''--admin-state-up'' \<in> set sn \<or> ''--admin_state_up'' \<in> set sn))
               \<or> (k = ''name'' \<and> v \<noteq> PNone \<and> ''--name'' \<in> set sn)
               \<or> (k = ''distributed'' \<and> v \<noteq> PNone \<and> ''--distributed'' \<in> set sn)
               \<or> (k = ''routes'' \<and> v = PNone \<and> ''--no-routes'' \<in> set sn)
               \<or> (k = ''routes'' \<and> v \<noteq> PNone \<and> ''--route'' \<in> set sn))
           \<and> (''--no-routes'' \<in> set sn \<longrightarrow> map_of body ''routes'' = Some PNone)"
proof -
  define body0 :: pydict where
    "body0 = (if hasattr ns ''admin_state''
              then (case map_of ns ''admin_state'' of
                      Some v \<Rightarrow> [(''admin_state_up'', v)] | None \<Rightarrow> [])
              else [])"
  define body1 where "body1 = update_dict ns body0 [''name'', ''distributed'']"
  have b0: "map_of body0 k = Some v \<Longrightarrow>
              k = ''admin_state_up'' \<and> v \<noteq> PNone
              \<and> (''--admin-state-up'' \<in> set sn \<or> ''--admin_state_up'' \<in> set sn)" for k v
  proof (cases "map_of ns ''admin_state''")
    case None
    assume "map_of body0 k = Some v"
    with None show ?thesis by (simp add: body0_def hasattr_def)
  next
    case (Some w)
    assume "map_of body0 k = Some v"
    with Some a show ?thesis by (simp add: body0_def hasattr_def split: if_splits)
  qed
  have b1: "map_of body1 k = Some v \<Longrightarrow>
              (k = ''admin_state_up'' \<and> v \<noteq> PNone
                 \<and> (''--admin-state-up'' \<in> set sn \<or> ''--admin_state_up'' \<in> set sn))
            \<or> (k = ''name'' \<and> v \<noteq> PNone \<and> ''--name'' \<in> set sn)
            \<or> (k = ''distributed'' \<and> v \<noteq> PNone \<and> ''--distributed'' \<in> set sn)" for k v
    using n d b0 [of k v]
    by (auto simp: body1_def map_of_update_dict simp del: update_dict.simps split: if_splits)
  have b1r: "map_of body1 ''routes'' = None"
  proof (cases "map_of body1 ''routes''")
    case None then show ?thesis .
  next
    case (Some v) with b1 [of "''routes''" v] show ?thesis by simp
  qed
  show ?thesis
  proof (cases "truthy nv")
    case True
    with nr have given: "''--no-routes'' \<in> set sn" by simp
    have eq: "UpdateRouter_args2body ns =
                Inr [(''router'', PDict (AList.update ''routes'' PNone body1))]"
      using True nr(1)
      by (simp add: UpdateRouter_args2body_def getattr_def body0_def body1_def Let_def)
    show ?thesis
      unfolding eq using given b1
      by (intro exI [of _ "AList.update ''routes'' PNone body1"])
         (auto simp: update_conv' split: if_splits)
  next
    case False
    with f have notgiven: "''--no-routes'' \<notin> set sn" by auto
    show ?thesis
    proof (cases "truthy rv")
      case True
      have eq: "UpdateRouter_args2body ns =
                  Inr [(''router'', PDict (AList.update ''routes'' rv body1))]"
        using True False nr(1) r(1)
        by (simp add: UpdateRouter_args2body_def getattr_def body0_def body1_def Let_def)
      show ?thesis
        unfolding eq using True r(2) notgiven b1 truthy_not_None [OF True]
        by (intro exI [of _ "AList.update ''routes'' rv body1"])
           (auto simp: update_conv' split: if_splits)
    next
      case rfalse: False
      have eq: "UpdateRouter_args2body ns = Inr [(''router'', PDict body1)]"
        using rfalse False nr(1) r(1)
        by (simp add: UpdateRouter_args2body_def getattr_def body0_def body1_def Let_def)
      show ?thesis
        unfolding eq using notgiven b1
        by (intro exI [of _ body1]) auto
    qed
  qed
qed

lemma written_truthy_flag: "written a w \<Longrightarrow> action a = StoreTrue \<Longrightarrow> w = PBool True"
  by (simp add: written_def)

text \<open>
  C6. \<open>UpdateRouter.args2body\<close> puts into the body only what the user specified.
  Whatever the parent class declares (\<open>inherited\<close>), as long as it does not reuse the
  destinations or the option names of this command, for every argument vector that
  the parser accepts: the body is \<open>{"router": body}\<close>; every entry of \<open>body\<close> is one of
  \<open>admin_state_up\<close>, \<open>name\<close>, \<open>distributed\<close>, \<open>routes\<close>, and the option behind it was
  given on the command line; the only entry that can be null is \<open>routes\<close>, and it is
  null exactly because \<open>--no-routes\<close> was given; when \<open>--no-routes\<close> was given the body
  does contain \<open>"routes": null\<close>; \<open>--route\<close> and \<open>--no-routes\<close> are never both accepted;
  and every option counted as given was read from a token of the argument vector.
\<close>

theorem update_router_body_only_specified:
  assumes h1: "\<forall>a\<in>set inherited.
                 dest a \<notin> set [''name'', ''admin_state'', ''distributed'', ''routes'', ''no_routes'']"
      and h2: "\<forall>a\<in>set inherited.
                 arg_name a \<notin> set [''--name'', ''--admin-state-up'', ''--admin_state_up'',
                                    ''--distributed'', ''--route'', ''--no-routes'']"
      and ok: "parse_state (inherited @ UpdateRouter_add_known_arguments rt) argv = Inr st"
  shows "\<exists>body. UpdateRouter_args2body (namespace st) = Inr [(''router'', PDict body)]
           \<and> (\<forall>k v. map_of body k = Some v \<longrightarrow>
                 (k = ''admin_state_up'' \<and> v \<noteq> PNone
                    \<and> (''--admin-state-up'' \<in> set (seen st) \<or> ''--admin_state_up'' \<in> set (seen st)))
               \<or> (k = ''name'' \<and> v \<noteq> PNone \<and> ''--name'' \<in> set (seen st))
               \<or> (k = ''distributed'' \<and> v \<noteq> PNone \<and> ''--distributed'' \<in> set (seen st))
               \<or> (k = ''routes'' \<and> v = PNone \<and> ''--no-routes'' \<in> set (seen st))
               \<or> (k = ''routes'' \<and> v \<noteq> PNone \<and> ''--route'' \<in> set (seen st)))
           \<and> (''--no-routes'' \<in> set (seen st) \<longrightarrow> map_of body ''routes'' = Some PNone)
           \<and> \<not> (''--route'' \<in> set (seen st) \<and> ''--no-routes'' \<in> set (seen st))
           \<and> (\<forall>n\<in>set (seen st). \<exists>tok\<in>set argv. \<exists>a e.
                 parse_optional (inherited @ UpdateRouter_add_known_arguments rt) tok = Known a e
                 \<and> arg_name a = n)"
proof -
  define P where "P = inherited @ UpdateRouter_add_known_arguments rt"
  define st0 where "st0 = \<lparr>namespace = init_namespace P, seen = [],
      positionals = filter (\<lambda>a. option_strings a = []) P, extras = []\<rparr>"
  from ok have run: "consume P argv st0 = Inr st"
    by (auto simp: parse_state_def P_def st0_def split: sum.splits if_splits)
  have ns0: "map_of (namespace st0) ''name'' = Some PNone"
            "map_of (namespace st0) ''admin_state'' = None"
            "map_of (namespace st0) ''distributed'' = None"
            "map_of (namespace st0) ''routes'' = Some PNone"
            "map_of (namespace st0) ''no_routes'' = Some (PBool False)"
    using h1 by (simp_all add: st0_def P_def init_namespace_append UpdateRouter_defaults)
  text \<open>Every write to one of the five attributes comes from an option of this command.\<close>
  have src: "\<exists>a\<in>set (UpdateRouter_add_known_arguments rt).
               dest a = d \<and> written a w \<and> arg_name a \<in> set (seen st)"
    if d: "d \<in> set [''name'', ''admin_state'', ''distributed'', ''routes'', ''no_routes'']"
      and new: "map_of (namespace st) d = Some w" "map_of (namespace st0) d \<noteq> Some w" for d w
  proof -
    from consume_written [OF run new(1)] new(2)
    obtain a where a: "dest a = d" "written a w"
      "(a \<in> set P \<and> arg_name a \<in> set (seen st)) \<or> a \<in> set (positionals st0)"
      by blast
    have inP: "a \<in> set P" using a(3) by (auto simp: st0_def)
    with a(1) d h1 have ours: "a \<in> set (UpdateRouter_add_known_arguments rt)"
      by (auto simp: P_def)
    then have "option_strings a \<noteq> []" by (rule UpdateRouter_arguments_options)
    then have "a \<notin> set (positionals st0)" by (simp add: st0_def)
    with a ours show ?thesis by blast
  qed
  have n: "\<forall>w. map_of (namespace st) ''name'' = Some w \<longrightarrow> w \<noteq> PNone \<longrightarrow> ''--name'' \<in> set (seen st)"
  proof (intro allI impI)
    fix w assume w: "map_of (namespace st) ''name'' = Some w" "w \<noteq> PNone"
    with ns0(1) have "map_of (namespace st0) ''name'' \<noteq> Some w" by simp
    from src [OF _ w(1) this] obtain a where
      "a \<in> set (UpdateRouter_add_known_arguments rt)" "dest a = ''name''"
      "arg_name a \<in> set (seen st)" by auto
    with UpdateRouter_arguments_cases [of a rt] show "''--name'' \<in> set (seen st)" by auto
  qed
  have a: "\<forall>w. map_of (namespace st) ''admin_state'' = Some w \<longrightarrow>
             w \<noteq> PNone \<and> (''--admin-state-up'' \<in> set (seen st) \<or> ''--admin_state_up'' \<in> set (seen st))"
  proof (intro allI impI)
    fix w assume w: "map_of (namespace st) ''admin_state'' = Some w"
    from ns0(2) have "map_of (namespace st0) ''admin_state'' \<noteq> Some w" by simp
    from src [OF _ w this] obtain a where
      "a \<in> set (UpdateRouter_add_known_arguments rt)" "dest a = ''admin_state''"
      "written a w" "arg_name a \<in> set (seen st)" by auto
    with UpdateRouter_arguments_cases [of a rt]
    show "w \<noteq> PNone \<and> (''--admin-state-up'' \<in> set (seen st) \<or> ''--admin_state_up'' \<in> set (seen st))"
      by (auto dest: written_truthy_flag)
  qed
  have d: "\<forall>w. map_of (namespace st) ''distributed'' = Some w \<longrightarrow> w \<noteq> PNone \<longrightarrow>
             ''--distributed'' \<in> set (seen st)"
  proof (intro allI impI)
    fix w assume w: "map_of (namespace st) ''distributed'' = Some w"
    from ns0(3) have "map_of (namespace st0) ''distributed'' \<noteq> Some w" by simp
    from src [OF _ w this] obtain a where
      "a \<in> set (UpdateRouter_add_known_arguments rt)" "dest a = ''distributed''"
      "arg_name a \<in> set (seen st)" by auto
    with UpdateRouter_arguments_cases [of a rt] show "''--distributed'' \<in> set (seen st)" by auto
  qed
  from consume_keys [OF run, of "''routes''"] ns0(4)
  obtain rv where rv: "map_of (namespace st) ''routes'' = Some rv" by auto
  have r: "truthy rv \<longrightarrow> ''--route'' \<in> set (seen st)"
  proof
    assume "truthy rv"
    then have "rv \<noteq> PNone" by (rule truthy_not_None)
    with ns0(4) have "map_of (namespace st0) ''routes'' \<noteq> Some rv" by simp
    from src [OF _ rv this] obtain a where
      "a \<in> set (UpdateRouter_add_known_arguments rt)" "dest a = ''routes''"
      "arg_name a \<in> set (seen st)" by auto
    with UpdateRouter_arguments_cases [of a rt] show "''--route'' \<in> set (seen st)" by auto
  qed
  from consume_keys [OF run, of "''no_routes''"] ns0(5)
  obtain nv where nv: "map_of (namespace st) ''no_routes'' = Some nv" by auto
  have nr: "truthy nv \<longrightarrow> ''--no-routes'' \<in> set (seen st)"
  proof
    assume "truthy nv"
    with ns0(5) have "map_of (namespace st0) ''no_routes'' \<noteq> Some nv" by auto
    from src [OF _ nv this] obtain a where
      "a \<in> set (UpdateRouter_add_known_arguments rt)" "dest a = ''no_routes''"
      "arg_name a \<in> set (seen st)" by auto
    with UpdateRouter_arguments_cases [of a rt] show "''--no-routes'' \<in> set (seen st)" by auto
  qed
  text \<open>The arguments of the command, by destination and by name.\<close>
  have byname: "arg_name b = ''--no-routes'' \<or> arg_name b = ''--route'' \<Longrightarrow> b \<in> set P \<Longrightarrow>
                  b \<in> set (UpdateRouter_add_known_arguments rt)" for b
    using h2 by (auto simp: P_def)
  have flag: "''--no-routes'' \<in> set (seen st) \<longrightarrow>
                map_of (namespace st) ''no_routes'' = Some (PBool True)"
  proof (rule consume_flag [OF run])
    show "\<forall>b. (b \<in> set P \<or> b \<in> set (positionals st0)) \<and> dest b = ''no_routes'' \<longrightarrow>
               action b = StoreTrue"
    proof (intro allI impI)
      fix b assume b: "(b \<in> set P \<or> b \<in> set (positionals st0)) \<and> dest b = ''no_routes''"
      then have "b \<in> set P" by (auto simp: st0_def)
      with b h1 have "b \<in> set (UpdateRouter_add_known_arguments rt)" by (auto simp: P_def)
      with b UpdateRouter_arguments_cases [of b rt] show "action b = StoreTrue" by auto
    qed
    show "\<forall>b\<in>set P. arg_name b = ''--no-routes'' \<longrightarrow> dest b = ''no_routes''"
    proof (intro ballI impI)
      fix b assume b: "b \<in> set P" "arg_name b = ''--no-routes''"
      then have "b \<in> set (UpdateRouter_add_known_arguments rt)" using byname by blast
      with b UpdateRouter_arguments_cases [of b rt] show "dest b = ''no_routes''" by auto
    qed
    show "''--no-routes'' \<in> set (seen st0) \<longrightarrow>
            map_of (namespace st0) ''no_routes'' = Some (PBool True)"
      by (simp add: st0_def)
  qed
  with nv have f: "''--no-routes'' \<in> set (seen st) \<longrightarrow> nv = PBool True" by simp
  have excl: "\<not> (''--route'' \<in> set (seen st) \<and> ''--no-routes'' \<in> set (seen st))"
  proof (rule consume_exclusive [OF run, of _ _ routes_group])
    show "''--route'' \<noteq> ''--no-routes''" by simp
    show "\<forall>b\<in>set P. arg_name b = ''--route'' \<or> arg_name b = ''--no-routes'' \<longrightarrow>
            excl_group b = Some routes_group"
    proof (intro ballI impI)
      fix b assume b: "b \<in> set P" "arg_name b = ''--route'' \<or> arg_name b = ''--no-routes''"
      then have "b \<in> set (UpdateRouter_add_known_arguments rt)" using byname by blast
      with b UpdateRouter_arguments_cases [of b rt] show "excl_group b = Some routes_group"
        by auto
    qed
    show "set (seen st0) \<subseteq> arg_name ` set P" by (simp add: st0_def)
    show "\<not> (''--route'' \<in> set (seen st0) \<and> ''--no-routes'' \<in> set (seen st0))"
      by (simp add: st0_def)
  qed
  have given: "\<forall>n\<in>set (seen st). \<exists>tok\<in>set argv. \<exists>a e.
                 parse_optional P tok = Known a e \<and> arg_name a = n"
    using consume_seen_given [OF run] by (auto simp: st0_def)
  from UpdateRouter_args2body_fields [OF n a d rv r nv nr f] excl given
  show ?thesis unfolding P_def by blast
qed

theorem update_router_body_only_specified_witness:
  "\<exists>st. parse_state ([add_argument_positional ''id''] @ UpdateRouter_add_known_arguments str_type)
           [''r1'', ''--name'', ''n'', ''--no-routes''] = Inr st
       \<and> seen st = [''--name'', ''--no-routes'']
       \<and> (\<exists>body. UpdateRouter_args2body (namespace st) = Inr [(''router'', PDict body)]
             \<and> map_of body ''routes'' = Some PNone
             \<and> map_of body ''admin_state_up'' = None)"
proof -
  let ?P = "[add_argument_positional ''id''] @ UpdateRouter_add_known_arguments str_type"
  let ?argv = "[''r1'', ''--name'', ''n'', ''--no-routes'']"
  have "map_sum id seen (parse_state ?P ?argv) = Inr [''--name'', ''--no-routes'']"
    by code_simp
  then obtain st where st: "parse_state ?P ?argv = Inr st" "seen st = [''--name'', ''--no-routes'']"
    by (cases "parse_state ?P ?argv") auto
  have h1: "\<forall>a\<in>set [add_argument_positional ''id''].
              dest a \<notin> set [''name'', ''admin_state'', ''distributed'', ''routes'', ''no_routes'']"
    by (simp add: add_argument_defs)
  have h2: "\<forall>a\<in>set [add_argument_positional ''id''].
              arg_name a \<notin> set [''--name'', ''--admin-state-up'', ''--admin_state_up'',
                                 ''--distributed'', ''--route'', ''--no-routes'']"
    by (simp add: add_argument_defs arg_name_def)
  from update_router_body_only_specified [OF h1 h2 st(1)]
  obtain body where b: "UpdateRouter_args2body (namespace st) = Inr [(''router'', PDict body)]"
    "\<forall>k v. map_of body k = Some v \<longrightarrow>
        (k = ''admin_state_up'' \<and> v \<noteq> PNone
           \<and> (''--admin-state-up'' \<in> set (seen st) \<or> ''--admin_state_up'' \<in> set (seen st)))
      \<or> (k = ''name'' \<and> v \<noteq> PNone \<and> ''--name'' \<in> set (seen st))
      \<or> (k = ''distributed'' \<and> v \<noteq> PNone \<and> ''--distributed'' \<in> set (seen st))
      \<or> (k = ''routes'' \<and> v = PNone \<and> ''--no-routes'' \<in> set (seen st))
      \<or> (k = ''routes'' \<and> v \<noteq> PNone \<and> ''--route'' \<in> set (seen st))"
    "''--no-routes'' \<in> set (seen st) \<longrightarrow> map_of body ''routes'' = Some PNone"
    by blast
  from b(3) st(2) have r: "map_of body ''routes'' = Some PNone" by simp
  have "map_of body ''admin_state_up'' = None"
  proof (cases "map_of body ''admin_state_up''")
    case None then show ?thesis .
  next
    case (Some v)
    with b(2) st(2) show ?thesis by auto
  qed
  with st b(1) r show ?thesis by blast
qed

subsection \<open>router-create\<close>

text \<open>
  C3. \<open>router-create myrouter --ha\<close>: the two tokens parse with nothing left over, and
  \<open>CreateRouter.args2body\<close> turns the parsed arguments into
  \<open>{"router": {"admin_state_up": true, "name": "myrouter", "ha": true}}\<close>, with no other
  key. The body is listed in the order in which the code inserts the keys; as a
  mapping it is the one the scenario writes with \<open>name\<close> first.
\<close>

theorem create_router_ha_body:
  "map_sum id (\<lambda>(parsed_args, leftover). (CreateRouter_args2body parsed_args, leftover))
     (parse_known_args (CreateCommand_get_parser CreateRouter_add_known_arguments)
        [''myrouter'', ''--ha''])
   = Inr (Inr [(''router'',
                PDict [(''admin_state_up'', PBool True), (''name'', PStr ''myrouter''),
                       (''ha'', PBool True)])], [])
   \<and> map_of [(''admin_state_up'', PBool True), (''name'', PStr ''myrouter''), (''ha'', PBool True)]
     = map_of [(''name'', PStr ''myrouter''), (''admin_state_up'', PBool True), (''ha'', PBool True)]"
proof
  show "map_sum id (\<lambda>(parsed_args, leftover). (CreateRouter_args2body parsed_args, leftover))
     (parse_known_args (CreateCommand_get_parser CreateRouter_add_known_arguments)
        [''myrouter'', ''--ha''])
   = Inr (Inr [(''router'',
                PDict [(''admin_state_up'', PBool True), (''name'', PStr ''myrouter''),
                       (''ha'', PBool True)])], [])"
    by code_simp
  show "map_of [(''admin_state_up'', PBool True), (''name'', PStr ''myrouter''), (''ha'', PBool True)]
     = map_of [(''name'', PStr ''myrouter''), (''admin_state_up'', PBool True), (''ha'', PBool True)]"
    by (rule ext) simp
qed

subsection \<open>router-interface-add\<close>

text \<open>
  C4. \<open>router-interface-add r1 subnet=s1\<close>: when \<open>r1\<close> resolves to the router
  identifier \<open>R\<close>, \<open>s1\<close> resolves to the subnet identifier \<open>S\<close> and the service answers
  the call with a port info that has a \<open>port_id\<close>, the command calls the add-interface
  endpoint on \<open>R\<close> with the body \<open>{"subnet_id": S}\<close> and prints the interface-added
  message with that \<open>port_id\<close> (and with the router token as typed). These are all the
  effects, in this order.
\<close>

theorem add_interface_subnet:
  assumes "resolve client ''router'' r1 = Inr R"
      and "resolve client ''subnet'' s1 = Inr S"
      and "add_interface_router client R [(''subnet_id'', PStr S)] = Inr portinfo"
      and "getitem portinfo ''port_id'' = Inr port"
  shows "AddInterfaceRouter_run repr client \<lparr>router = r1, interface = ''subnet='' @ s1\<rparr> =
           ([FindResourceId ''router'' r1, FindResourceId ''subnet'' s1,
             AddInterfaceRouterCall R [(''subnet_id'', PStr S)],
             Stdout (''Added interface '' @ py_str repr port @ '' to router '' @ r1 @ ''.'')],
            Inr ())"
  using assms
  by (simp add: AddInterfaceRouter_run_def RouterInterfaceCommand_run_def split_eq_def
      AddInterfaceRouter_call_api_def AddInterfaceRouter_success_message_def io_defs)

theorem add_interface_subnet_witness:
  "AddInterfaceRouter_run (\<lambda>v. ''?'')
     \<lparr>resolve = (\<lambda>res tok. if res = ''router'' \<and> tok = ''r1'' then Inr ''R-id''
                             else if res = ''subnet'' \<and> tok = ''s1'' then Inr ''S-id''
                             else Inl (NotFound res tok)),
      add_interface_router = (\<lambda>i b. Inr (PDict [(''subnet_id'', PStr ''S-id''), (''port_id'', PStr ''P-id'')])),
      remove_interface_router = (\<lambda>i b. Inr PNone),
      remove_gateway_router = (\<lambda>i. Inr PNone)\<rparr>
     \<lparr>router = ''r1'', interface = ''subnet=s1''\<rparr> =
   ([FindResourceId ''router'' ''r1'', FindResourceId ''subnet'' ''s1'',
     AddInterfaceRouterCall ''R-id'' [(''subnet_id'', PStr ''S-id'')],
     Stdout ''Added interface P-id to router r1.''], Inr ())"
  using add_interface_subnet
    [of "\<lparr>resolve = (\<lambda>res tok. if res = ''router'' \<and> tok = ''r1'' then Inr ''R-id''
                             else if res = ''subnet'' \<and> tok = ''s1'' then Inr ''S-id''
                             else Inl (NotFound res tok)),
      add_interface_router = (\<lambda>i b. Inr (PDict [(''subnet_id'', PStr ''S-id''), (''port_id'', PStr ''P-id'')])),
      remove_interface_router = (\<lambda>i b. Inr PNone),
      remove_gateway_router = (\<lambda>i. Inr PNone)\<rparr>" "''r1''" "''R-id''" "''s1''" "''S-id''"
      "PDict [(''subnet_id'', PStr ''S-id''), (''port_id'', PStr ''P-id'')]" "PStr ''P-id''" "\<lambda>v. ''?''"]
  by (simp add: py_str_def)

subsection \<open>An INTERFACE of an unknown kind\<close>

text \<open>
  C9. For an INTERFACE token \<open>X=V\<close> whose \<open>X\<close> is neither \<open>subnet\<close> nor \<open>port\<close>,
  \<open>RouterInterfaceCommand.run\<close> raises no usage error of its own (the \<open>CommandError\<close>
  is built and dropped). Once the router token has resolved it goes on to resolve the
  value \<open>V\<close> as a resource of the unknown type \<open>X\<close>: if that fails, the failure of
  the resolver is the outcome; if it succeeds, the API is called with the body
  \<open>{"X_id": id}\<close> and the command ends as the call and the message decide. No other
  outcome is possible.
\<close>

theorem unknown_interface_kind:
  assumes "CHR ''='' \<notin> set X" and "X \<noteq> ''subnet''" and "X \<noteq> ''port''"
      and "resolve client ''router'' r = Inr rid"
  shows "RouterInterfaceCommand_run call_api msg client \<lparr>router = r, interface = X @ ''='' @ V\<rparr> =
     (case resolve client X V of
        Inl e \<Rightarrow> ([FindResourceId ''router'' r, FindResourceId X V], Inl e)
      | Inr iid \<Rightarrow>
         (case call_api client rid [(X @ ''_id'', PStr iid)] of
            (t, Inl e) \<Rightarrow> ([FindResourceId ''router'' r, FindResourceId X V] @ t, Inl e)
          | (t, Inr p) \<Rightarrow>
             (case msg r p of
                Inl e \<Rightarrow> ([FindResourceId ''router'' r, FindResourceId X V] @ t, Inl e)
              | Inr m \<Rightarrow> ([FindResourceId ''router'' r, FindResourceId X V] @ t @ [Stdout m], Inr ()))))"
proof -
  have "split_eq (X @ ''='' @ V) = (X, V)"
    using assms(1) by (simp add: split_eq_def takeWhile_append dropWhile_append)
  with assms(4) show ?thesis
    by (simp add: RouterInterfaceCommand_run_def io_defs split: sum.splits prod.splits)
qed

theorem unknown_interface_kind_witness:
  "RouterInterfaceCommand_run AddInterfaceRouter_call_api (AddInterfaceRouter_success_message (\<lambda>v. ''?''))
     \<lparr>resolve = (\<lambda>res tok. if res = ''router'' \<and> tok = ''r1'' then Inr ''R-id''
                             else Inl (NotFound res tok)),
      add_interface_router = (\<lambda>i b. Inr (PDict [(''port_id'', PStr ''P-id'')])),
      remove_interface_router = (\<lambda>i b. Inr PNone),
      remove_gateway_router = (\<lambda>i. Inr PNone)\<rparr>
     \<lparr>router = ''r1'', interface = ''network=n1''\<rparr> =
   ([FindResourceId ''router'' ''r1'', FindResourceId ''network'' ''n1''],
    Inl (NotFound ''network'' ''n1''))"
  using unknown_interface_kind
    [of "''network''"
      "\<lparr>resolve = (\<lambda>res tok. if res = ''router'' \<and> tok = ''r1'' then Inr ''R-id''
                             else Inl (NotFound res tok)),
      add_interface_router = (\<lambda>i b. Inr (PDict [(''port_id'', PStr ''P-id'')])),
      remove_interface_router = (\<lambda>i b. Inr PNone),
      remove_gateway_router = (\<lambda>i. Inr PNone)\<rparr>" "''r1''" "''R-id''"
      AddInterfaceRouter_call_api "AddInterfaceRouter_success_message (\<lambda>v. ''?'')" "''n1''"]
  by simp

subsection \<open>The column formatter\<close>

text \<open>
  C8. The formatter of the column \<open>external_gateway_info\<close>: for a router record that
  is a mapping with the key, it returns what \<open>jsonutils.dumps\<close> renders for the value
  of the key; for a mapping without the key it returns the empty string; and for a
  value that is not a mapping at all (it cannot be indexed by a string) it returns
  the empty string.
\<close>

theorem format_gateway_info:
  "(map_of kvs ''external_gateway_info'' = Some v \<and> dumps v = Inr s \<longrightarrow>
      format_external_gateway_info dumps (PDict kvs) = Inr s)
   \<and> (map_of kvs ''external_gateway_info'' = None \<longrightarrow>
      format_external_gateway_info dumps (PDict kvs) = Inr '''')
   \<and> ((\<forall>d. rtr \<noteq> PDict d) \<longrightarrow> format_external_gateway_info dumps rtr = Inr '''')"
  by (cases rtr) (simp_all add: format_external_gateway_info_def)

theorem format_gateway_info_witness:
  "format_external_gateway_info
     (\<lambda>v. if v = PDict [(''network_id'', PStr ''n1'')] then Inr ''{\"network_id\": \"n1\"}''
           else Inl (ValueError ''unexpected''))
     (PDict [(''id'', PStr ''r1''), (''external_gateway_info'', PDict [(''network_id'', PStr ''n1'')])])
     = Inr ''{\"network_id\": \"n1\"}''
   \<and> format_external_gateway_info (\<lambda>v. Inl (ValueError ''unexpected''))
       (PDict [(''id'', PStr ''r1'')]) = Inr ''''
   \<and> format_external_gateway_info (\<lambda>v. Inl (ValueError ''unexpected'')) PNone = Inr ''''"
  using format_gateway_info
      [of "[(''id'', PStr ''r1''), (''external_gateway_info'', PDict [(''network_id'', PStr ''n1'')])]"
          "PDict [(''network_id'', PStr ''n1'')]"
          "\<lambda>v. if v = PDict [(''network_id'', PStr ''n1'')] then Inr ''{\"network_id\": \"n1\"}''
                else Inl (ValueError ''unexpected'')"
          "''{\"network_id\": \"n1\"}''" PNone]
    format_gateway_info
      [of "[(''id'', PStr ''r1'')]" PNone "\<lambda>v. Inl (ValueError ''unexpected'')" "''''" PNone]
  by simp

subsection \<open>run\_command\<close>

lemma take_list_index: "take (list_index xs x) xs = takeWhile (\<lambda>y. y \<noteq> x) xs"
  by (simp add: list_index_def takeWhile_eq_take [symmetric])

lemma drop_list_index: "drop (list_index xs x) xs = dropWhile (\<lambda>y. y \<noteq> x) xs"
  by (simp add: list_index_def dropWhile_eq_drop [symmetric])

lemma takeWhile_absent: "x \<notin> set xs \<Longrightarrow> takeWhile (\<lambda>y. y \<noteq> x) xs = xs"
  by (induction xs) auto

lemma run_command_unfold:
  "run_command ivc cmd parser sub_argv =
     (case parser (takeWhile (\<lambda>x. x \<noteq> ''--'') sub_argv) of
        Inl e \<Rightarrow> ([ParseKnownArgs (takeWhile (\<lambda>x. x \<noteq> ''--'') sub_argv)], Inl e)
      | Inr (known, leftover) \<Rightarrow>
          (case adjust_cidr ivc cmd known leftover of
             Inl e \<Rightarrow> ([ParseKnownArgs (takeWhile (\<lambda>x. x \<noteq> ''--'') sub_argv)], Inl e)
           | Inr (known', leftover') \<Rightarrow>
               ([ParseKnownArgs (takeWhile (\<lambda>x. x \<noteq> ''--'') sub_argv),
                 RunCommand known'
                   (if ''--'' \<in> set sub_argv then dropWhile (\<lambda>x. x \<noteq> ''--'') sub_argv
                    else leftover')],
                cmd_run cmd known'
                  (if ''--'' \<in> set sub_argv then dropWhile (\<lambda>x. x \<noteq> ''--'') sub_argv
                   else leftover'))))"
proof (cases "''--'' \<in> set sub_argv")
  case True
  then show ?thesis
    by (simp add: run_command_def take_list_index drop_list_index io_defs Let_def
        split: sum.splits prod.splits)
next
  case False
  then show ?thesis
    by (simp add: run_command_def takeWhile_absent io_defs Let_def split: sum.splits prod.splits)
qed

lemma adjust_cidr_moves:
  "is_CreateSubnet cmd \<Longrightarrow> getattr known ''cidr'' = Inr c \<Longrightarrow> \<not> truthy c \<Longrightarrow>
     find ivc leftover = Some cidr \<Longrightarrow> cidr \<noteq> [] \<Longrightarrow>
     adjust_cidr ivc cmd known leftover
       = Inr (AList.update ''cidr'' (PStr cidr) known, remove1 cidr leftover)"
  by (simp add: adjust_cidr_def get_first_valid_cidr_def)

lemma adjust_cidr_keeps:
  "is_CreateSubnet cmd \<Longrightarrow> getattr known ''cidr'' = Inr c \<Longrightarrow>
     truthy c \<or> find ivc leftover = None \<or> find ivc leftover = Some [] \<Longrightarrow>
     adjust_cidr ivc cmd known leftover = Inr (known, leftover)"
  by (auto simp: adjust_cidr_def get_first_valid_cidr_def)

lemma adjust_cidr_other:
  "\<not> is_CreateSubnet cmd \<Longrightarrow> adjust_cidr ivc cmd known leftover = Inr (known, leftover)"
  by (simp add: adjust_cidr_def)

lemma adjust_cidr_raises:
  "is_CreateSubnet cmd \<Longrightarrow> getattr known ''cidr'' = Inl e \<Longrightarrow>
     adjust_cidr ivc cmd known leftover = Inl e"
  by (simp add: adjust_cidr_def)

text \<open>
  C10 (as amended). \<open>run_command\<close> hands the parser of the subcommand exactly the
  tokens before the first \<open>--\<close> (all of them when there is none); a failure of the
  parser is the outcome. When the parser returns, the command runs with these
  free-form values: the suffix that starts with the first \<open>--\<close> when there is one,
  and otherwise the leftover tokens of the parser, with one exception. For a
  \<open>CreateSubnet\<close> whose parsed \<open>cidr\<close> is empty, the first leftover that is a valid
  (non-empty) CIDR is moved: it becomes \<open>known_args.cidr\<close> and, when there is no \<open>--\<close>,
  the values stored are the leftovers without its first occurrence. In every other
  case (another command, a \<open>cidr\<close> that was parsed, no valid CIDR among the leftovers)
  the parsed arguments and the leftovers are used as the parser returned them; a
  \<open>CreateSubnet\<close> whose parsed arguments have no \<open>cidr\<close> attribute ends with the
  \<open>AttributeError\<close>.
\<close>

theorem run_command_free_form_values:
  "(\<forall>e. parser (takeWhile (\<lambda>x. x \<noteq> ''--'') sub_argv) = Inl e \<longrightarrow>
      run_command ivc cmd parser sub_argv
        = ([ParseKnownArgs (takeWhile (\<lambda>x. x \<noteq> ''--'') sub_argv)], Inl e))
   \<and> (\<forall>known leftover.
        parser (takeWhile (\<lambda>x. x \<noteq> ''--'') sub_argv) = Inr (known, leftover)
        \<and> \<not> is_CreateSubnet cmd \<longrightarrow>
        run_command ivc cmd parser sub_argv
          = ([ParseKnownArgs (takeWhile (\<lambda>x. x \<noteq> ''--'') sub_argv),
              RunCommand known
                (if ''--'' \<in> set sub_argv then dropWhile (\<lambda>x. x \<noteq> ''--'') sub_argv
                 else leftover)],
             cmd_run cmd known
               (if ''--'' \<in> set sub_argv then dropWhile (\<lambda>x. x \<noteq> ''--'') sub_argv
                else leftover)))
   \<and> (\<forall>known leftover c cidr.
        parser (takeWhile (\<lambda>x. x \<noteq> ''--'') sub_argv) = Inr (known, leftover)
        \<and> is_CreateSubnet cmd \<and> getattr known ''cidr'' = Inr c \<and> \<not> truthy c
        \<and> find ivc leftover = Some cidr \<and> cidr \<noteq> [] \<longrightarrow>
        run_command ivc cmd parser sub_argv
          = ([ParseKnownArgs (takeWhile (\<lambda>x. x \<noteq> ''--'') sub_argv),
              RunCommand (AList.update ''cidr'' (PStr cidr) known)
                (if ''--'' \<in> set sub_argv then dropWhile (\<lambda>x. x \<noteq> ''--'') sub_argv
                 else remove1 cidr leftover)],
             cmd_run cmd (AList.update ''cidr'' (PStr cidr) known)
               (if ''--'' \<in> set sub_argv then dropWhile (\<lambda>x. x \<noteq> ''--'') sub_argv
                else remove1 cidr leftover)))
   \<and> (\<forall>known leftover c.
        parser (takeWhile (\<lambda>x. x \<noteq> ''--'') sub_argv) = Inr (known, leftover)
        \<and> is_CreateSubnet cmd \<and> getattr known ''cidr'' = Inr c
        \<and> (truthy c \<or> find ivc leftover = None \<or> find ivc leftover = Some []) \<longrightarrow>
        run_command ivc cmd parser sub_argv
          = ([ParseKnownArgs (takeWhile (\<lambda>x. x \<noteq> ''--'') sub_argv),
              RunCommand known
                (if ''--'' \<in> set sub_argv then dropWhile (\<lambda>x. x \<noteq> ''--'') sub_argv
                 else leftover)],
             cmd_run cmd known
               (if ''--'' \<in> set sub_argv then dropWhile (\<lambda>x. x \<noteq> ''--'') sub_argv
                else leftover)))
   \<and> (\<forall>known leftover e.
        parser (takeWhile (\<lambda>x. x \<noteq> ''--'') sub_argv) = Inr (known, leftover)
        \<and> is_CreateSubnet cmd \<and> getattr known ''cidr'' = Inl e \<longrightarrow>
        run_command ivc cmd parser sub_argv
          = ([ParseKnownArgs (takeWhile (\<lambda>x. x \<noteq> ''--'') sub_argv)], Inl e))"
proof -
  let ?argv = "takeWhile (\<lambda>x. x \<noteq> ''--'') sub_argv"
  let ?suffix = "dropWhile (\<lambda>x. x \<noteq> ''--'') sub_argv"
  have p1: "run_command ivc cmd parser sub_argv = ([ParseKnownArgs ?argv], Inl e)"
    if "parser ?argv = Inl e" for e
    using that by (simp add: run_command_unfold)
  have p2: "run_command ivc cmd parser sub_argv
          = ([ParseKnownArgs ?argv,
              RunCommand known (if ''--'' \<in> set sub_argv then ?suffix else leftover)],
             cmd_run cmd known (if ''--'' \<in> set sub_argv then ?suffix else leftover))"
    if "parser ?argv = Inr (known, leftover) \<and> \<not> is_CreateSubnet cmd" for known leftover
    using that by (simp add: run_command_unfold adjust_cidr_other)
  have p3: "run_command ivc cmd parser sub_argv
          = ([ParseKnownArgs ?argv,
              RunCommand (AList.update ''cidr'' (PStr cidr) known)
                (if ''--'' \<in> set sub_argv then ?suffix else remove1 cidr leftover)],
             cmd_run cmd (AList.update ''cidr'' (PStr cidr) known)
               (if ''--'' \<in> set sub_argv then ?suffix else remove1 cidr leftover))"
    if "parser ?argv = Inr (known, leftover)
        \<and> is_CreateSubnet cmd \<and> getattr known ''cidr'' = Inr c \<and> \<not> truthy c
        \<and> find ivc leftover = Some cidr \<and> cidr \<noteq> []" for known leftover c cidr
    using that by (simp add: run_command_unfold adjust_cidr_moves [of cmd known c ivc leftover cidr])
  have p4: "run_command ivc cmd parser sub_argv
          = ([ParseKnownArgs ?argv,
              RunCommand known (if ''--'' \<in> set sub_argv then ?suffix else leftover)],
             cmd_run cmd known (if ''--'' \<in> set sub_argv then ?suffix else leftover))"
    if "parser ?argv = Inr (known, leftover)
        \<and> is_CreateSubnet cmd \<and> getattr known ''cidr'' = Inr c
        \<and> (truthy c \<or> find ivc leftover = None \<or> find ivc leftover = Some [])"
    for known leftover c
  proof -
    from that have "adjust_cidr ivc cmd known leftover = Inr (known, leftover)"
      by (intro adjust_cidr_keeps [of cmd known c]) auto
    with that show ?thesis by (simp add: run_command_unfold)
  qed
  have p5: "run_command ivc cmd parser sub_argv = ([ParseKnownArgs ?argv], Inl e)"
    if "parser ?argv = Inr (known, leftover)
        \<and> is_CreateSubnet cmd \<and> getattr known ''cidr'' = Inl e" for known leftover e
    using that by (simp add: run_command_unfold adjust_cidr_raises)
  from p1 p2 p3 p4 p5 show ?thesis by blast
qed


theorem run_command_free_form_values_witness:
  "run_command (\<lambda>s. False) (RemoveGatewayRouter_command example_client)
     (cmd_parser (RemoveGatewayRouter_command example_client)) [''myrouter'', ''--'', ''x'']
   = ([ParseKnownArgs [''myrouter''], RunCommand [(''router'', PStr ''myrouter'')] [''--'', ''x'']],
      Inr PNone)
   \<and> run_command (\<lambda>s. False) (RemoveGatewayRouter_command example_client)
     (cmd_parser (RemoveGatewayRouter_command example_client)) [''myrouter'', ''x'']
   = ([ParseKnownArgs [''myrouter'', ''x''], RunCommand [(''router'', PStr ''myrouter'')] [''x'']],
      Inr PNone)
   \<and> run_command (\<lambda>s. s = ''10.0.0.0/24'')
       \<lparr>is_CreateSubnet = True,
        cmd_parser = (\<lambda>argv. Inr ([(''network_id'', PStr ''net1''), (''cidr'', PNone),
                                   (''gateway'', PStr ''10.0.0.1'')], [''foo'', ''10.0.0.0/24''])),
        cmd_run = (\<lambda>known_args values_specs. Inr PNone)\<rparr>
       (\<lambda>argv. Inr ([(''network_id'', PStr ''net1''), (''cidr'', PNone),
                     (''gateway'', PStr ''10.0.0.1'')], [''foo'', ''10.0.0.0/24'']))
       [''net1'', ''--gateway'', ''10.0.0.1'', ''foo'', ''10.0.0.0/24'']
     = ([ParseKnownArgs [''net1'', ''--gateway'', ''10.0.0.1'', ''foo'', ''10.0.0.0/24''],
         RunCommand [(''network_id'', PStr ''net1''), (''cidr'', PStr ''10.0.0.0/24''),
                     (''gateway'', PStr ''10.0.0.1'')] [''foo'']],
        Inr PNone)
   \<and> run_command (\<lambda>s. s = ''10.1.0.0/16'')
       \<lparr>is_CreateSubnet = True,
        cmd_parser = (\<lambda>argv. Inr ([(''network_id'', PStr ''net1''),
                                   (''cidr'', PStr ''10.0.0.0/24'')], [''10.1.0.0/16''])),
        cmd_run = (\<lambda>known_args values_specs. Inr PNone)\<rparr>
       (\<lambda>argv. Inr ([(''network_id'', PStr ''net1''),
                     (''cidr'', PStr ''10.0.0.0/24'')], [''10.1.0.0/16'']))
       [''net1'', ''10.0.0.0/24'', ''10.1.0.0/16'']
     = ([ParseKnownArgs [''net1'', ''10.0.0.0/24'', ''10.1.0.0/16''],
         RunCommand [(''network_id'', PStr ''net1''), (''cidr'', PStr ''10.0.0.0/24'')]
           [''10.1.0.0/16'']],
        Inr PNone)"
proof -
  let ?cmd = "RemoveGatewayRouter_command example_client"
  have r: "cmd_run ?cmd [(''router'', PStr ''myrouter'')] vs = Inr PNone" for vs
    by (simp add: RemoveGatewayRouter_command_def RemoveGatewayRouter_run_def example_client_def
        io_defs)
  have h1: "cmd_parser ?cmd (takeWhile (\<lambda>x. x \<noteq> ''--'') [''myrouter'', ''--'', ''x''])
              = Inr ([(''router'', PStr ''myrouter'')], []) \<and> \<not> is_CreateSubnet ?cmd"
  proof
    show "cmd_parser ?cmd (takeWhile (\<lambda>x. x \<noteq> ''--'') [''myrouter'', ''--'', ''x''])
              = Inr ([(''router'', PStr ''myrouter'')], [])"
      by code_simp
    show "\<not> is_CreateSubnet ?cmd" by (simp add: RemoveGatewayRouter_command_def)
  qed
  have h2: "cmd_parser ?cmd (takeWhile (\<lambda>x. x \<noteq> ''--'') [''myrouter'', ''x''])
              = Inr ([(''router'', PStr ''myrouter'')], [''x'']) \<and> \<not> is_CreateSubnet ?cmd"
  proof
    show "cmd_parser ?cmd (takeWhile (\<lambda>x. x \<noteq> ''--'') [''myrouter'', ''x''])
              = Inr ([(''router'', PStr ''myrouter'')], [''x''])"
      by code_simp
    show "\<not> is_CreateSubnet ?cmd" by (simp add: RemoveGatewayRouter_command_def)
  qed
  have 1: "run_command (\<lambda>s. False) ?cmd (cmd_parser ?cmd) [''myrouter'', ''--'', ''x'']
          = ([ParseKnownArgs [''myrouter''],
              RunCommand [(''router'', PStr ''myrouter'')] [''--'', ''x'']], Inr PNone)"
    using run_command_free_form_values
            [of "cmd_parser ?cmd" "[''myrouter'', ''--'', ''x'']" "\<lambda>s. False" ?cmd,
             THEN conjunct2, THEN conjunct1, rule_format, OF h1]
    by (simp add: r)
  have 2: "run_command (\<lambda>s. False) ?cmd (cmd_parser ?cmd) [''myrouter'', ''x'']
          = ([ParseKnownArgs [''myrouter'', ''x''],
              RunCommand [(''router'', PStr ''myrouter'')] [''x'']], Inr PNone)"
    using run_command_free_form_values
            [of "cmd_parser ?cmd" "[''myrouter'', ''x'']" "\<lambda>s. False" ?cmd,
             THEN conjunct2, THEN conjunct1, rule_format, OF h2]
    by (simp add: r)
  let ?known = "[(''network_id'', PStr ''net1''), (''cidr'', PNone), (''gateway'', PStr ''10.0.0.1'')]"
  let ?P = "\<lambda>argv :: string list. Inr (?known, [''foo'', ''10.0.0.0/24'']) :: py_exc + (pydict \<times> string list)"
  let ?cs = "\<lparr>is_CreateSubnet = True, cmd_parser = ?P,
             cmd_run = (\<lambda>known_args values_specs. Inr PNone)\<rparr>"
  have h3: "?P (takeWhile (\<lambda>x. x \<noteq> ''--'') [''net1'', ''--gateway'', ''10.0.0.1'', ''foo'', ''10.0.0.0/24''])
              = Inr (?known, [''foo'', ''10.0.0.0/24''])
            \<and> is_CreateSubnet ?cs \<and> getattr ?known ''cidr'' = Inr PNone \<and> \<not> truthy PNone
            \<and> find (\<lambda>s. s = ''10.0.0.0/24'') [''foo'', ''10.0.0.0/24''] = Some ''10.0.0.0/24''
            \<and> ''10.0.0.0/24'' \<noteq> []"
    by (simp add: getattr_def)
  have 3: "run_command (\<lambda>s. s = ''10.0.0.0/24'') ?cs ?P
            [''net1'', ''--gateway'', ''10.0.0.1'', ''foo'', ''10.0.0.0/24'']
     = ([ParseKnownArgs [''net1'', ''--gateway'', ''10.0.0.1'', ''foo'', ''10.0.0.0/24''],
         RunCommand [(''network_id'', PStr ''net1''), (''cidr'', PStr ''10.0.0.0/24''),
                     (''gateway'', PStr ''10.0.0.1'')] [''foo'']],
        Inr PNone)"
    using run_command_free_form_values
            [of ?P "[''net1'', ''--gateway'', ''10.0.0.1'', ''foo'', ''10.0.0.0/24'']"
                "\<lambda>s. s = ''10.0.0.0/24''" ?cs,
             THEN conjunct2, THEN conjunct2, THEN conjunct1, rule_format, OF h3]
    by simp
  let ?known4 = "[(''network_id'', PStr ''net1''), (''cidr'', PStr ''10.0.0.0/24'')]"
  let ?P4 = "\<lambda>argv :: string list. Inr (?known4, [''10.1.0.0/16'']) :: py_exc + (pydict \<times> string list)"
  let ?cs4 = "\<lparr>is_CreateSubnet = True, cmd_parser = ?P4,
              cmd_run = (\<lambda>known_args values_specs. Inr PNone)\<rparr>"
  have h4: "?P4 (takeWhile (\<lambda>x. x \<noteq> ''--'') [''net1'', ''10.0.0.0/24'', ''10.1.0.0/16''])
              = Inr (?known4, [''10.1.0.0/16''])
            \<and> is_CreateSubnet ?cs4 \<and> getattr ?known4 ''cidr'' = Inr (PStr ''10.0.0.0/24'')
            \<and> (truthy (PStr ''10.0.0.0/24'')
                 \<or> find (\<lambda>s. s = ''10.1.0.0/16'') [''10.1.0.0/16''] = None
                 \<or> find (\<lambda>s. s = ''10.1.0.0/16'') [''10.1.0.0/16''] = Some [])"
    by (simp add: getattr_def)
  have 4: "run_command (\<lambda>s. s = ''10.1.0.0/16'') ?cs4 ?P4 [''net1'', ''10.0.0.0/24'', ''10.1.0.0/16'']
     = ([ParseKnownArgs [''net1'', ''10.0.0.0/24'', ''10.1.0.0/16''],
         RunCommand [(''network_id'', PStr ''net1''), (''cidr'', PStr ''10.0.0.0/24'')]
           [''10.1.0.0/16'']],
        Inr PNone)"
    using run_command_free_form_values
            [of ?P4 "[''net1'', ''10.0.0.0/24'', ''10.1.0.0/16'']" "\<lambda>s. s = ''10.1.0.0/16''" ?cs4,
             THEN conjunct2, THEN conjunct2, THEN conjunct2, THEN conjunct1, rule_format, OF h4]
    by simp
  show ?thesis
    by (intro conjI) (fact 1, fact 2, fact 3, fact 4)
qed

text \<open>
  The claim without the exception fails: for \<open>subnet-create\<close> with the CIDR separated
  from the network by an option, the parser leaves the CIDR among the leftovers (this
  is the case the comment in \<open>get_first_valid_cidr\<close> describes); there is no \<open>--\<close>,
  and the values stored are empty, not the leftover token.
\<close>

theorem run_command_leftover_counterexample:
  "''--'' \<notin> set [''net1'', ''--gateway'', ''10.0.0.1'', ''10.0.0.0/24'']
   \<and> run_command (\<lambda>s. s = ''10.0.0.0/24'')
       \<lparr>is_CreateSubnet = True,
        cmd_parser = (\<lambda>argv. Inr ([(''network_id'', PStr ''net1''), (''cidr'', PNone),
                                   (''gateway'', PStr ''10.0.0.1'')], [''10.0.0.0/24''])),
        cmd_run = (\<lambda>known_args values_specs. Inr PNone)\<rparr>
       (\<lambda>argv. Inr ([(''network_id'', PStr ''net1''), (''cidr'', PNone),
                     (''gateway'', PStr ''10.0.0.1'')], [''10.0.0.0/24'']))
       [''net1'', ''--gateway'', ''10.0.0.1'', ''10.0.0.0/24'']
     = ([ParseKnownArgs [''net1'', ''--gateway'', ''10.0.0.1'', ''10.0.0.0/24''],
         RunCommand [(''network_id'', PStr ''net1''), (''cidr'', PStr ''10.0.0.0/24''),
                     (''gateway'', PStr ''10.0.0.1'')] []],
        Inr PNone)"
  by (simp add: run_command_def adjust_cidr_def get_first_valid_cidr_def getattr_def io_defs)

subsection \<open>The shell\<close>

lemma fst_main: "fst (main env argv) = fst (NeutronShell_run env argv)"
  by (simp add: main_def split: prod.splits sum.splits py_exc.splits)

lemma initialize_app_cases:
  assumes "initialize_app env opts im rem = (t, r)"
  shows "(t = [Authenticate] \<and> r = authenticate env opts)
       \<or> (t = [] \<and> (\<exists>e. r = Inl e))
       \<or> (t = [] \<and> r = Inr () \<and> rem \<noteq> [] \<and> \<not> im
            \<and> (\<exists>cmd sub. find_command env rem = Inr (cmd, ''help'', sub)))"
  using assms
  by (auto simp: initialize_app_def authenticate_user_def io_defs
      split: if_splits sum.splits prod.splits)

lemma initialize_app_authenticates:
  "find_command env rem = Inr (cmd, name, sub) \<Longrightarrow> rem \<noteq> [] \<Longrightarrow> name \<noteq> ''help'' \<Longrightarrow>
     fst (initialize_app env opts im rem) = [Authenticate]"
  by (simp add: initialize_app_def authenticate_user_def io_defs)

lemma initialize_app_interactive:
  "fst (initialize_app env opts True []) = [Authenticate]"
  by (simp add: initialize_app_def authenticate_user_def io_defs)

lemma run_command_trace:
  "(\<exists>a. fst (run_command ivc cmd parser sub_argv) = [ParseKnownArgs a]) \<or>
   (\<exists>a k v. fst (run_command ivc cmd parser sub_argv) = [ParseKnownArgs a, RunCommand k v])"
  by (auto simp: run_command_def io_defs Let_def split: sum.splits prod.splits if_splits)

lemma run_subcommand_trace:
  "fst (run_subcommand env opts rem) = []
   \<or> (\<exists>cmd name sub a. find_command env rem = Inr (cmd, name, sub)
         \<and> fst (run_subcommand env opts rem) = [PrepareToRunCommand name, ParseKnownArgs a])
   \<or> (\<exists>cmd name sub a k v. find_command env rem = Inr (cmd, name, sub)
         \<and> fst (run_subcommand env opts rem)
             = [PrepareToRunCommand name, ParseKnownArgs a, RunCommand k v])"
proof (cases "find_command env rem")
  case (Inl e)
  then show ?thesis by (simp add: run_subcommand_def io_defs)
next
  case (Inr x)
  obtain cmd name sub where x: "x = (cmd, name, sub)" by (cases x)
  have eq: "fst (run_subcommand env opts rem)
              = PrepareToRunCommand name # fst (run_command (is_valid_cidr env) cmd (cmd_parser cmd) sub)"
    using Inr x
    by (simp add: run_subcommand_def io_defs split: prod.splits sum.splits py_exc.splits)
  from run_command_trace [of "is_valid_cidr env" cmd "cmd_parser cmd" sub] Inr x
  show ?thesis unfolding eq by auto
qed

text \<open>The shapes a trace of the shell can have.\<close>

lemma run_trace_shape:
  "fst (NeutronShell_run env argv) = [BashCompletion]
   \<or> (\<exists>a. fst (NeutronShell_run env argv) = [ParseGlobalOptions a])
   \<or> (\<exists>a. fst (NeutronShell_run env argv) = [ParseGlobalOptions a, Authenticate])
   \<or> (\<exists>a opts. authenticate env opts = Inr ()
         \<and> fst (NeutronShell_run env argv) = [ParseGlobalOptions a, Authenticate, Interact])
   \<or> (\<exists>a opts name rc. authenticate env opts = Inr () \<and> Interact \<notin> set rc
         \<and> fst (NeutronShell_run env argv)
             = ParseGlobalOptions a # Authenticate # PrepareToRunCommand name # rc)
   \<or> (\<exists>a rc. Interact \<notin> set rc
         \<and> fst (NeutronShell_run env argv)
             = ParseGlobalOptions a # PrepareToRunCommand ''help'' # rc)"
proof (cases "rewrite_argv (commands env) argv")
  case None
  then show ?thesis
    by (simp add: NeutronShell_run_def run_except_def split: sum.splits option.splits)
next
  case (Some a)
  show ?thesis
  proof (cases "global_parse env a")
    case (Inl e)
    with Some show ?thesis
      by (simp add: NeutronShell_run_def run_except_def split: sum.splits option.splits)
  next
    case (Inr x)
    obtain opts rem where x: "x = (opts, rem)" by (cases x)
    obtain t r where init: "initialize_app env opts (rem = []) rem = (t, r)"
      by (cases "initialize_app env opts (rem = []) rem")
    show ?thesis
    proof (cases r)
      case (Inl e)
      from initialize_app_cases [OF init] have "t = [] \<or> t = [Authenticate]" by auto
      with Some Inr x init Inl show ?thesis
        by (auto simp: NeutronShell_run_def run_except_def split: option.splits)
    next
      case ok: (Inr u)
      from initialize_app_cases [OF init] ok
      consider (authd) "t = [Authenticate]" "authenticate env opts = Inr ()"
        | (helpcmd) cmd sub where "t = []" "rem \<noteq> []" "find_command env rem = Inr (cmd, ''help'', sub)"
        by auto
      then show ?thesis
      proof cases
        case authd
        show ?thesis
        proof (cases "rem = []")
          case True
          with Some Inr x init ok authd show ?thesis
            by (auto simp: NeutronShell_run_def io_defs)
        next
          case False
          with Some Inr x init ok authd
          have eq: "fst (NeutronShell_run env argv)
                      = ParseGlobalOptions a # Authenticate # fst (run_subcommand env opts rem)"
            by (simp add: NeutronShell_run_def io_defs split: prod.splits)
          from run_subcommand_trace [of env opts rem] authd(2)
          show ?thesis unfolding eq by auto
        qed
      next
        case helpcmd
        with helpcmd Some Inr x init ok
        have eq: "fst (NeutronShell_run env argv)
                    = ParseGlobalOptions a # fst (run_subcommand env opts rem)"
          by (simp add: NeutronShell_run_def io_defs split: prod.splits)
        from run_subcommand_trace [of env opts rem] helpcmd(3)
        show ?thesis unfolding eq by auto
      qed
    qed
  qed
qed

text \<open>
  C7. The shell never runs a subcommand without authenticating first, except the
  \<open>help\<close> command. For every environment and argument vector: before any call of a
  command's \<open>run\<close> in the trace of \<open>main\<close>, either \<open>authenticate_user\<close> was called
  (and did not fail), or the command prepared for running is \<open>help\<close>; the interactive
  loop is entered only after a successful authentication; the completion listing runs
  no command. In \<open>initialize_app\<close>, \<open>authenticate_user\<close> is called whenever the
  command found is not \<open>help\<close>, and always in interactive mode.
\<close>

theorem authenticate_before_command:
  "(\<forall>pre known vs post. fst (main env argv) = pre @ RunCommand known vs # post \<longrightarrow>
      (Authenticate \<in> set pre \<and> (\<exists>opts. authenticate env opts = Inr ()))
      \<or> PrepareToRunCommand ''help'' \<in> set pre)
   \<and> (\<forall>pre post. fst (main env argv) = pre @ Interact # post \<longrightarrow>
        Authenticate \<in> set pre \<and> (\<exists>opts. authenticate env opts = Inr ()))
   \<and> (\<forall>opts im rem cmd name sub.
        find_command env rem = Inr (cmd, name, sub) \<and> rem \<noteq> [] \<and> name \<noteq> ''help'' \<longrightarrow>
        fst (initialize_app env opts im rem) = [Authenticate])
   \<and> (\<forall>opts. fst (initialize_app env opts True []) = [Authenticate])"
proof -
  have p1: "(Authenticate \<in> set pre \<and> (\<exists>opts. authenticate env opts = Inr ()))
      \<or> PrepareToRunCommand ''help'' \<in> set pre"
    if "fst (main env argv) = pre @ RunCommand known vs # post" for pre known vs post
  proof -
    from that have t: "fst (NeutronShell_run env argv) = pre @ RunCommand known vs # post"
      by (simp add: fst_main)
    from run_trace_shape [of env argv] show ?thesis
      unfolding t by (auto simp: append_eq_Cons_conv Cons_eq_append_conv)
  qed
  have p2: "Authenticate \<in> set pre \<and> (\<exists>opts. authenticate env opts = Inr ())"
    if "fst (main env argv) = pre @ Interact # post" for pre post
  proof -
    from that have t: "fst (NeutronShell_run env argv) = pre @ Interact # post"
      by (simp add: fst_main)
    from run_trace_shape [of env argv] show ?thesis
      unfolding t by (auto simp: append_eq_Cons_conv Cons_eq_append_conv)
  qed
  have p3: "fst (initialize_app env opts im rem) = [Authenticate]"
    if "find_command env rem = Inr (cmd, name, sub) \<and> rem \<noteq> [] \<and> name \<noteq> ''help''"
    for opts im rem cmd name sub
    using that by (simp add: initialize_app_authenticates)
  have p4: "fst (initialize_app env opts True []) = [Authenticate]" for opts
    by (rule initialize_app_interactive)
  from p1 p2 p3 p4 show ?thesis by blast
qed

theorem authenticate_before_command_witness:
  "fst (main example_shell [''router-gateway-clear'', ''myrouter''])
     = [ParseGlobalOptions [''router-gateway-clear'', ''myrouter'']] @ [Authenticate]
       @ [PrepareToRunCommand ''router-gateway-clear'', ParseKnownArgs [''myrouter'']]
       @ RunCommand [(''router'', PStr ''myrouter'')] [] # []
   \<and> Authenticate \<in> set ([ParseGlobalOptions [''router-gateway-clear'', ''myrouter'']] @ [Authenticate]
       @ [PrepareToRunCommand ''router-gateway-clear'', ParseKnownArgs [''myrouter'']])
   \<and> fst (initialize_app example_shell \<lparr>verbose_level = 0\<rparr> False [''router-gateway-clear'', ''myrouter''])
       = [Authenticate]"
proof -
  have tr: "fst (main example_shell [''router-gateway-clear'', ''myrouter''])
     = ([ParseGlobalOptions [''router-gateway-clear'', ''myrouter'']] @ [Authenticate]
       @ [PrepareToRunCommand ''router-gateway-clear'', ParseKnownArgs [''myrouter'']])
       @ RunCommand [(''router'', PStr ''myrouter'')] [] # []"
    by code_simp
  have nohelp: "PrepareToRunCommand ''help'' \<notin> set ([ParseGlobalOptions [''router-gateway-clear'', ''myrouter'']] @ [Authenticate]
       @ [PrepareToRunCommand ''router-gateway-clear'', ParseKnownArgs [''myrouter'']])"
    by simp
  have fc: "find_command example_shell [''router-gateway-clear'', ''myrouter'']
              = Inr (RemoveGatewayRouter_command example_client, ''router-gateway-clear'', [''myrouter''])
            \<and> [''router-gateway-clear'', ''myrouter''] \<noteq> [] \<and> ''router-gateway-clear'' \<noteq> ''help''"
    by (simp add: example_shell_def)
  note inst = authenticate_before_command [of example_shell "[''router-gateway-clear'', ''myrouter'']"]
  from inst tr nohelp have "Authenticate \<in> set ([ParseGlobalOptions [''router-gateway-clear'', ''myrouter'']] @ [Authenticate]
       @ [PrepareToRunCommand ''router-gateway-clear'', ParseKnownArgs [''myrouter'']])"
    by blast
  moreover from inst fc
  have "fst (initialize_app example_shell \<lparr>verbose_level = 0\<rparr> False [''router-gateway-clear'', ''myrouter''])
       = [Authenticate]"
    by blast
  ultimately show ?thesis using tr by simp
qed

subsection \<open>Exit codes\<close>

lemma exit_code_spec_Exception: "is_Exception e \<Longrightarrow> exit_code_spec (Inl e) = 1"
  by (cases e) simp_all

lemma run_except_code:
  "exit_code_spec (snd (run_except opts t e)) = exit_code_spec (Inl e)"
  "fst (run_except opts t e) = t"
  by (auto simp: run_except_def exit_code_spec_Exception split: option.splits)

lemma main_code:
  "process_exit_status (snd (main env argv)) = exit_code_spec (snd (NeutronShell_run env argv))"
proof (cases "NeutronShell_run env argv")
  case (Pair t r)
  show ?thesis
  proof (cases r)
    case (Inl e)
    with Pair show ?thesis by (cases e) (simp_all add: main_def)
  next
    case (Inr v)
    with Pair show ?thesis by (simp add: main_def)
  qed
qed

text \<open>The handlers of \<open>run_subcommand\<close> change neither the effects nor the exit code.\<close>

lemma run_subcommand_code:
  "exit_code_spec (snd (run_subcommand env opts rem))
     = exit_code_spec (snd (io_bind (io_lift (find_command env rem))
         (\<lambda>(cmd, cmd_name, sub_argv).
            io_bind (io_call (PrepareToRunCommand cmd_name) (Inr ()))
              (\<lambda>_. run_command (is_valid_cidr env) cmd (cmd_parser cmd) sub_argv))))"
  "fst (run_subcommand env opts rem)
     = fst (io_bind (io_lift (find_command env rem))
         (\<lambda>(cmd, cmd_name, sub_argv).
            io_bind (io_call (PrepareToRunCommand cmd_name) (Inr ()))
              (\<lambda>_. run_command (is_valid_cidr env) cmd (cmd_parser cmd) sub_argv)))"
proof -
  show "fst (run_subcommand env opts rem)
     = fst (io_bind (io_lift (find_command env rem))
         (\<lambda>(cmd, cmd_name, sub_argv).
            io_bind (io_call (PrepareToRunCommand cmd_name) (Inr ()))
              (\<lambda>_. run_command (is_valid_cidr env) cmd (cmd_parser cmd) sub_argv)))"
    by (simp add: run_subcommand_def io_defs split: sum.splits prod.splits py_exc.splits)
  show "exit_code_spec (snd (run_subcommand env opts rem))
     = exit_code_spec (snd (io_bind (io_lift (find_command env rem))
         (\<lambda>(cmd, cmd_name, sub_argv).
            io_bind (io_call (PrepareToRunCommand cmd_name) (Inr ()))
              (\<lambda>_. run_command (is_valid_cidr env) cmd (cmd_parser cmd) sub_argv))))"
  proof (cases "find_command env rem")
    case (Inl e)
    then show ?thesis by (simp add: run_subcommand_def io_defs)
  next
    case (Inr x)
    obtain cmd name sub where x: "x = (cmd, name, sub)" by (cases x)
    obtain t r where rc: "run_command (is_valid_cidr env) cmd (cmd_parser cmd) sub = (t, r)"
      by (cases "run_command (is_valid_cidr env) cmd (cmd_parser cmd) sub")
    show ?thesis
    proof (cases r)
      case (Inl e)
      with Inr x rc show ?thesis
        by (cases e) (simp_all add: run_subcommand_def io_defs)
    next
      case ok: (Inr v)
      with Inr x rc show ?thesis by (simp add: run_subcommand_def io_defs)
    qed
  qed
qed

text \<open>
  C2 (as amended). For every environment and every argument vector, \<open>main\<close> performs
  the steps of the dispatcher up to the first one that fails, and the exit code of the
  process is decided by the outcome alone, whatever the verbosity: the status the
  command (or the interactive loop) returns when every step completes, which is 0 for
  \<open>None\<close> and for 0; 130 when a step is interrupted by \<open>KeyboardInterrupt\<close>; 1 when a
  step raises any \<open>Exception\<close> (a \<open>CommandError\<close>, a failure of name resolution, an
  error of the remote API, an unknown command, any other runtime error); and the
  code that a \<open>SystemExit\<close> carries when a step ends the program itself, as the
  argument parser does on wrong arguments (with 2) and for \<open>--help\<close> (with 0).
\<close>

theorem exit_code_of_main:
  "process_exit_status (snd (main env argv)) = exit_code_spec (snd (dispatch_spec env argv))
   \<and> fst (main env argv) = fst (dispatch_spec env argv)"
proof -
  have "exit_code_spec (snd (NeutronShell_run env argv)) = exit_code_spec (snd (dispatch_spec env argv))
        \<and> fst (NeutronShell_run env argv) = fst (dispatch_spec env argv)"
  proof (cases "rewrite_argv (commands env) argv")
    case None
    then show ?thesis
      by (simp add: NeutronShell_run_def dispatch_spec_def run_except_code io_defs
          split: sum.splits)
  next
    case (Some a)
    show ?thesis
    proof (cases "global_parse env a")
      case (Inl e)
      with Some show ?thesis
        by (simp add: NeutronShell_run_def dispatch_spec_def run_except_code io_defs)
    next
      case (Inr x)
      obtain opts rem where x: "x = (opts, rem)" by (cases x)
      obtain t r where init: "initialize_app env opts (rem = []) rem = (t, r)"
        by (cases "initialize_app env opts (rem = []) rem")
      show ?thesis
      proof (cases r)
        case (Inl e)
        with Some Inr x init show ?thesis
          by (simp add: NeutronShell_run_def dispatch_spec_def run_except_code io_defs)
      next
        case ok: (Inr u)
        show ?thesis
        proof (cases "rem = []")
          case True
          with Some Inr x init ok show ?thesis
            by (simp add: NeutronShell_run_def dispatch_spec_def io_defs)
        next
          case False
          obtain t2 r2 where rs: "run_subcommand env opts rem = (t2, r2)"
            by (cases "run_subcommand env opts rem")
          obtain t3 r3 where sp: "io_bind (io_lift (find_command env rem))
             (\<lambda>(cmd, cmd_name, sub_argv).
                io_bind (io_call (PrepareToRunCommand cmd_name) (Inr ()))
                  (\<lambda>_. run_command (is_valid_cidr env) cmd (cmd_parser cmd) sub_argv)) = (t3, r3)"
            by (cases "io_bind (io_lift (find_command env rem))
             (\<lambda>(cmd, cmd_name, sub_argv).
                io_bind (io_call (PrepareToRunCommand cmd_name) (Inr ()))
                  (\<lambda>_. run_command (is_valid_cidr env) cmd (cmd_parser cmd) sub_argv))")
          from run_subcommand_code [of env opts rem] rs sp
          have same: "exit_code_spec r2 = exit_code_spec r3" "t2 = t3" by simp_all
          have l: "NeutronShell_run env argv = (ParseGlobalOptions a # t @ t2, r2)"
            using Some Inr x init ok False rs by (simp add: NeutronShell_run_def io_bind_def)
          have r: "dispatch_spec env argv = (ParseGlobalOptions a # t @ t3, r3)"
            using Some Inr x init ok False sp
            by (simp add: dispatch_spec_def io_bind_def io_call_def)
          from l r same show ?thesis by simp
        qed
      qed
    qed
  qed
  then show ?thesis by (simp add: main_code fst_main)
qed

theorem exit_code_of_main_witness:
  "process_exit_status (snd (main example_shell [''router-gateway-clear'', ''myrouter''])) = 0
   \<and> process_exit_status (snd (main example_shell [''router-gateway-clear'', ''other''])) = 1
   \<and> process_exit_status
       (snd (main (example_shell\<lparr>authenticate := (\<lambda>opts. Inl KeyboardInterrupt)\<rparr>)
               [''router-gateway-clear'', ''myrouter''])) = 130
   \<and> process_exit_status (snd (main example_shell [''router-gateway-clear''])) = 2"
proof -
  have "exit_code_spec (snd (dispatch_spec example_shell [''router-gateway-clear'', ''myrouter''])) = 0"
    by code_simp
  moreover
  have "exit_code_spec (snd (dispatch_spec example_shell [''router-gateway-clear'', ''other''])) = 1"
    by code_simp
  moreover
  have "exit_code_spec
          (snd (dispatch_spec (example_shell\<lparr>authenticate := (\<lambda>opts. Inl KeyboardInterrupt)\<rparr>)
                  [''router-gateway-clear'', ''myrouter''])) = 130"
    by code_simp
  moreover
  have "exit_code_spec (snd (dispatch_spec example_shell [''router-gateway-clear''])) = 2"
    by code_simp
  ultimately show ?thesis
    using exit_code_of_main [of example_shell "[''router-gateway-clear'', ''myrouter'']"]
      exit_code_of_main [of example_shell "[''router-gateway-clear'', ''other'']"]
      exit_code_of_main [of "example_shell\<lparr>authenticate := (\<lambda>opts. Inl KeyboardInterrupt)\<rparr>"
                           "[''router-gateway-clear'', ''myrouter'']"]
      exit_code_of_main [of example_shell "[''router-gateway-clear'']"]
    by simp
qed

text \<open>
  The claim that every usage error gives 1 fails: \<open>router-gateway-clear\<close> without its
  ROUTER argument is rejected by the parser of the command with \<open>SystemExit(2)\<close>,
  \<open>run_subcommand\<close> raises it again after printing the hint, \<open>main\<close> does not catch
  it, and the process ends with 2.
\<close>

theorem exit_code_usage_error_counterexample:
  "cmd_parser (RemoveGatewayRouter_command example_client) [] = Inl (SystemExit 2)
   \<and> main example_shell [''router-gateway-clear'']
       = ([ParseGlobalOptions [''router-gateway-clear''], Authenticate,
           PrepareToRunCommand ''router-gateway-clear'', ParseKnownArgs []],
          Inl (SystemExit 2))
   \<and> process_exit_status (snd (main example_shell [''router-gateway-clear''])) = 2
   \<and> process_exit_status (snd (main example_shell [''router-gateway-clear''])) \<noteq> 1"
  by code_simp

subsection \<open>Name resolution\<close>

text \<open>
  C1. Name resolution, for every resource type and token: a token in the identifier
  format is returned as it is, and no list call is made; for any other token the
  collection is queried once, filtered by display name, and the result is the
  identifier of the record when exactly one record matches, \<open>NotFound\<close> when none
  matches, and \<open>AmbiguousReference\<close> with all the candidates when two or more match.
  It never picks one of several matches.
\<close>

theorem resolve_spec:
  "(is_identifier svc token \<longrightarrow>
      find_resourceid_by_name_or_id_spec svc resource token = ([], Inr token))
   \<and> (\<not> is_identifier svc token \<longrightarrow>
        fst (find_resourceid_by_name_or_id_spec svc resource token) = [ListByName resource token]
        \<and> (\<forall>r. list_by_name svc resource token = [r] \<longrightarrow>
              snd (find_resourceid_by_name_or_id_spec svc resource token) = Inr (fst r))
        \<and> (list_by_name svc resource token = [] \<longrightarrow>
              snd (find_resourceid_by_name_or_id_spec svc resource token)
                = Inl (NotFound resource token))
        \<and> (length (list_by_name svc resource token) \<ge> 2 \<longrightarrow>
              snd (find_resourceid_by_name_or_id_spec svc resource token)
                = Inl (AmbiguousReference resource token
                         (map fst (list_by_name svc resource token)))))"
  by (auto simp: find_resourceid_by_name_or_id_spec_def io_defs split: list.splits)

theorem resolve_spec_witness:
  "find_resourceid_by_name_or_id_spec
     \<lparr>is_identifier = (\<lambda>s. take 3 s = ''id-''),
      collection = (\<lambda>res. if res = ''router''
                           then [(''id-1'', ''r1''), (''id-2'', ''dup''), (''id-3'', ''dup'')] else [])\<rparr>
     ''router'' ''id-123'' = ([], Inr ''id-123'')
   \<and> find_resourceid_by_name_or_id_spec
     \<lparr>is_identifier = (\<lambda>s. take 3 s = ''id-''),
      collection = (\<lambda>res. if res = ''router''
                           then [(''id-1'', ''r1''), (''id-2'', ''dup''), (''id-3'', ''dup'')] else [])\<rparr>
     ''router'' ''r1'' = ([ListByName ''router'' ''r1''], Inr ''id-1'')
   \<and> find_resourceid_by_name_or_id_spec
     \<lparr>is_identifier = (\<lambda>s. take 3 s = ''id-''),
      collection = (\<lambda>res. if res = ''router''
                           then [(''id-1'', ''r1''), (''id-2'', ''dup''), (''id-3'', ''dup'')] else [])\<rparr>
     ''router'' ''nope'' = ([ListByName ''router'' ''nope''], Inl (NotFound ''router'' ''nope''))
   \<and> find_resourceid_by_name_or_id_spec
     \<lparr>is_identifier = (\<lambda>s. take 3 s = ''id-''),
      collection = (\<lambda>res. if res = ''router''
                           then [(''id-1'', ''r1''), (''id-2'', ''dup''), (''id-3'', ''dup'')] else [])\<rparr>
     ''router'' ''dup''
       = ([ListByName ''router'' ''dup''],
          Inl (AmbiguousReference ''router'' ''dup'' [''id-2'', ''id-3'']))"
proof -
  let ?svc = "\<lparr>is_identifier = (\<lambda>s. take 3 s = ''id-''),
      collection = (\<lambda>res. if res = ''router''
                           then [(''id-1'', ''r1''), (''id-2'', ''dup''), (''id-3'', ''dup'')] else [])\<rparr>"
  have l: "list_by_name ?svc ''router'' ''r1'' = [(''id-1'', ''r1'')]"
    "list_by_name ?svc ''router'' ''nope'' = []"
    "list_by_name ?svc ''router'' ''dup'' = [(''id-2'', ''dup''), (''id-3'', ''dup'')]"
    by (simp_all add: list_by_name_def)
  have eq: "p = (fst p, snd p)" for p :: "string io" by simp
  from resolve_spec [of ?svc "''id-123''" "''router''"]
  have 1: "find_resourceid_by_name_or_id_spec ?svc ''router'' ''id-123'' = ([], Inr ''id-123'')"
    by simp
  from resolve_spec [of ?svc "''r1''" "''router''"] l(1)
  have 2: "find_resourceid_by_name_or_id_spec ?svc ''router'' ''r1''
             = ([ListByName ''router'' ''r1''], Inr ''id-1'')"
    by (subst eq) simp
  from resolve_spec [of ?svc "''nope''" "''router''"] l(2)
  have 3: "find_resourceid_by_name_or_id_spec ?svc ''router'' ''nope''
             = ([ListByName ''router'' ''nope''], Inl (NotFound ''router'' ''nope''))"
    by (subst eq) simp
  from resolve_spec [of ?svc "''dup''" "''router''"] l(3)
  have 4: "find_resourceid_by_name_or_id_spec ?svc ''router'' ''dup''
             = ([ListByName ''router'' ''dup''],
                Inl (AmbiguousReference ''router'' ''dup'' [''id-2'', ''id-3'']))"
    by (subst eq) simp
  from 1 2 3 4 show ?thesis by blast
qed

end
